theory Spec2Isabelle
  imports Main "HOL-Library.Multiset" "HOL-Library.Char_ord" "HOL-Library.List_Lexorder"
begin

section \<open>Python values used by the redaction tools\<close>

text \<open>
  The tools are Python scripts (\<^verbatim>\<open>tools/redact.py\<close>, \<^verbatim>\<open>tools/extract.py\<close>).
  Python strings are modelled as \<^typ>\<open>string\<close>, Python's unbounded integers as \<^typ>\<open>int\<close>,
  \<^verbatim>\<open>bytes\<close> as lists of naturals below 256, and a raised exception as the left
  summand of a sum type.
\<close>

datatype py_error =
    IndexError          \<comment> \<open>\<^verbatim>\<open>ident[0]\<close> on an empty string\<close>
  | ValueError          \<comment> \<open>\<^verbatim>\<open>int(s, 16)\<close> or \<^verbatim>\<open>encode_bcd\<close> on a bad literal; \<^verbatim>\<open>t, i = x\<close> when \<open>x\<close> is no pair\<close>
  | TypeError           \<comment> \<open>a non-string identity value reaching the encoder\<close>
  | OtherError string   \<comment> \<open>any exception raised by a collaborator (file access, rule engine)\<close>

definition hex_lower :: string where
  "hex_lower = ''0123456789abcdef''"

definition hexchar :: "nat \<Rightarrow> char" where
  "hexchar n = hex_lower ! (n mod 16)"

text \<open>The value of a hexadecimal digit, of either case, from its character code.\<close>

definition hexval :: "char \<Rightarrow> nat option" where
  "hexval c =
     (let n = (of_char c :: nat) in
      if 48 \<le> n \<and> n \<le> 57 then Some (n - 48)
      else if 97 \<le> n \<and> n \<le> 102 then Some (n - 87)
      else if 65 \<le> n \<and> n \<le> 70 then Some (n - 55)
      else None)"

definition hex_digit :: "char \<Rightarrow> bool" where
  "hex_digit c = (case hexval c of None \<Rightarrow> False | Some d \<Rightarrow> True)"

text \<open>A decimal digit: one of the characters \<^verbatim>\<open>0\<close> to \<^verbatim>\<open>9\<close>.\<close>

definition decimal_digit :: "char \<Rightarrow> bool" where
  "decimal_digit c = (48 \<le> (of_char c :: nat) \<and> (of_char c :: nat) \<le> 57)"

text \<open>\<^verbatim>\<open>str(n)\<close> and \<^verbatim>\<open>f"{n:x}"\<close> for a natural number: no leading zeros, at least one digit.\<close>

fun dec_nat :: "nat \<Rightarrow> string" where
  "dec_nat n = (if n < 10 then [hexchar n] else dec_nat (n div 10) @ [hexchar (n mod 10)])"

fun hex_nat :: "nat \<Rightarrow> string" where
  "hex_nat n = (if n < 16 then [hexchar n] else hex_nat (n div 16) @ [hexchar (n mod 16)])"

declare dec_nat.simps [simp del]
declare hex_nat.simps [simp del]

definition py_str :: "int \<Rightarrow> string" where
  "py_str i = (if i < 0 then CHR ''-'' # dec_nat (nat (- i)) else dec_nat (nat i))"

definition py_hex :: "int \<Rightarrow> string" where
  "py_hex i = (if i < 0 then CHR ''-'' # hex_nat (nat (- i)) else hex_nat (nat i))"

text \<open>
  \<^verbatim>\<open>int(s, 16)\<close>: surrounding whitespace is stripped, one sign is allowed, and the rest
  must be a non-empty run of hexadecimal digits. The whitespace stripped is the ASCII
  whitespace (codes 9 to 13 and 32) and, of the codes above 127, the next-line and the
  no-break space characters; the separator controls 28 to 31 are not stripped, although
  \<^verbatim>\<open>str.isspace\<close> holds of them. Python also accepts a \<^verbatim>\<open>0x\<close> prefix
  and single underscores between digits; the only literals parsed here are built by
  \<open>identity_octets\<close> as one character, a decimal rendering and lower-case hex digits,
  where neither can occur in an accepted literal, so they are left out.
\<close>

definition py_isspace :: "char \<Rightarrow> bool" where
  "py_isspace c = (of_char c \<in> set [9, 10, 11, 12, 13, 32, 133, 160 :: nat])"

fun hex_digits :: "int \<Rightarrow> string \<Rightarrow> int option" where
  "hex_digits acc [] = Some acc"
| "hex_digits acc (c # cs) =
     (case hexval c of None \<Rightarrow> None | Some d \<Rightarrow> hex_digits (16 * acc + int d) cs)"

definition py_int16 :: "string \<Rightarrow> int option" where
  "py_int16 s =
     (let t = rev (dropWhile py_isspace (rev (dropWhile py_isspace s))) in
      case t of
        [] \<Rightarrow> None
      | c # cs \<Rightarrow>
          if c = CHR ''-'' then (if cs = [] then None else map_option uminus (hex_digits 0 cs))
          else if c = CHR ''+'' then (if cs = [] then None else hex_digits 0 cs)
          else hex_digits 0 t)"

section \<open>The BCD packing of the protocol library\<close>

text \<open>
  Modelled from the spec: \<^verbatim>\<open>encode_bcd\<close> is imported from the protocol library
  (\<^verbatim>\<open>pycrate_mobile.TS24008_IE\<close>), which is not part of the repository. The spec asks
  for "standard telecom BCD packing (two digits per byte)": an odd digit count is padded
  with the filler \<^verbatim>\<open>F\<close>, every byte carries the earlier digit in its low nibble and the
  later digit in its high nibble, and packing fails on a character that is not a
  hexadecimal digit.
\<close>

fun swap_pairs :: "'a list \<Rightarrow> 'a list" where
  "swap_pairs (a # b # rest) = b # a # swap_pairs rest"
| "swap_pairs xs = xs"

fun unhexlify :: "string \<Rightarrow> py_error + nat list" where
  "unhexlify [] = Inr []"
| "unhexlify [a] = Inl ValueError"
| "unhexlify (a # b # rest) =
     (case (hexval a, hexval b) of
        (Some h, Some l) \<Rightarrow>
          (case unhexlify rest of Inl e \<Rightarrow> Inl e | Inr bs \<Rightarrow> Inr ((16 * h + l) # bs))
      | _ \<Rightarrow> Inl ValueError)"

definition encode_bcd :: "string \<Rightarrow> py_error + nat list" where
  "encode_bcd dig =
     (let dig' = (if length dig mod 2 = 1 then dig @ ''F'' else dig)
      in unhexlify (swap_pairs dig'))"

text \<open>\<^verbatim>\<open>bytes.hex()\<close>: two lower-case hex digits per byte.\<close>

definition bytes_hex :: "nat list \<Rightarrow> string" where
  "bytes_hex bs = concat (map (\<lambda>b. [hexchar (b div 16), hexchar (b mod 16)]) bs)"

section \<open>The identity encoder (\<^verbatim>\<open>redact.identity_octets\<close>)\<close>

text \<open>
  \<^verbatim>\<open>type_and_parity = str(idtype + 8 * (len(ident) % 2))\<close>
  \<^verbatim>\<open>return int(ident[0] + type_and_parity + encode_bcd(ident[1:]).hex(), 16)\<close>

  \<open>identity_literal\<close> is the string handed to \<^verbatim>\<open>int(..., 16)\<close>. Its first operand
  \<^verbatim>\<open>ident[0]\<close> is evaluated first, so an empty string raises IndexError before anything
  else is looked at. \<^verbatim>\<open>str\<close> renders the type-and-parity number in decimal.
\<close>

definition identity_literal :: "int \<Rightarrow> string \<Rightarrow> py_error + string" where
  "identity_literal idtype ident =
     (let type_and_parity = py_str (idtype + 8 * (int (length ident) mod 2)) in
      case ident of
        [] \<Rightarrow> Inl IndexError
      | d0 # rest \<Rightarrow>
          (case encode_bcd rest of
             Inl e \<Rightarrow> Inl e
           | Inr bs \<Rightarrow> Inr (d0 # type_and_parity @ bytes_hex bs)))"

definition identity_octets :: "int \<Rightarrow> string \<Rightarrow> py_error + int" where
  "identity_octets idtype ident =
     (case identity_literal idtype ident of
        Inl e \<Rightarrow> Inl e
      | Inr lit \<Rightarrow> (case py_int16 lit of None \<Rightarrow> Inl ValueError | Some v \<Rightarrow> Inr v))"

section \<open>Decoded identities\<close>

text \<open>
  The second value of a decoded pair \<^verbatim>\<open>(type, value)\<close>: for the digit-based identities
  it is the digit string; for an identity without digits it is a value that is no string
  (a number, or \<^verbatim>\<open>None\<close>). The tools never look inside such a value, so it is kept opaque.
\<close>

datatype id_value = IdDigits string | IdOther

type_synonym identity = "int \<times> id_value"

section \<open>Rule synthesis (\<^verbatim>\<open>redact.yara_rules\<close>)\<close>

text \<open>
  One rule per identity. The rule text of the source is a template whose interpolated
  parts are kept here as fields: the rule name \<^verbatim>\<open>mobile_id_type{typ}\<close> and the four hex
  strings with their identifiers. The condition of every rule is the disjunction of its
  four strings.
\<close>

record yara_rule =
  rule_name :: string
  strings :: "(string \<times> string) list"

text \<open>
  \<^verbatim>\<open>"??" + s[2:-1] + "?"\<close> and \<^verbatim>\<open>"0" + s[0] + "??" + s[3:-1] + "?"\<close>. A Python slice
  \<^verbatim>\<open>s[a:-1]\<close> is \<open>drop a (butlast s)\<close>, empty when the string is too short.
\<close>

definition mask_shift12 :: "string \<Rightarrow> string" where
  "mask_shift12 s = ''??'' @ drop 2 (butlast s) @ ''?''"

definition mask_shift3 :: "string \<Rightarrow> py_error + string" where
  "mask_shift3 s =
     (case s of
        [] \<Rightarrow> Inl IndexError
      | c # _ \<Rightarrow> Inr (''0'' @ [c] @ ''??'' @ drop 3 (butlast s) @ ''?''))"

definition yara_rules :: "int \<Rightarrow> id_value \<Rightarrow> py_error + yara_rule" where
  "yara_rules typ ident =
     (case ident of
        IdOther \<Rightarrow> Inl TypeError
      | IdDigits ds \<Rightarrow>
          (case identity_octets typ ds of
             Inl e \<Rightarrow> Inl e
           | Inr ident_octets \<Rightarrow>
               (let shift1 = py_hex (ident_octets * 2);
                    shift2 = py_hex (ident_octets * 4);
                    shift3 = py_hex (ident_octets * 8)
                in case mask_shift3 shift3 of
                     Inl e \<Rightarrow> Inl e
                   | Inr shift3' \<Rightarrow>
                       Inr \<lparr> rule_name = ''mobile_id_type'' @ py_str typ,
                             strings =
                               [(''$ident'' @ py_str typ, py_hex ident_octets),
                                (''$shift1'', mask_shift12 shift1),
                                (''$shift2'', mask_shift12 shift2),
                                (''$shift3'', shift3')] \<rparr>)))"

text \<open>
  The text the source builds from the fields (after its two \<^verbatim>\<open>replace\<close> calls, which
  turn the placeholders of the template into braces; no interpolated part contains a
  placeholder, as they consist of digits, hex digits, \<^verbatim>\<open>?\<close> and \<^verbatim>\<open>-\<close>).
\<close>

definition nl :: string where
  "nl = [CHR 0x0A]"

definition string_line :: "string \<times> string \<Rightarrow> string" where
  "string_line p = ''        '' @ fst p @ '' = { '' @ snd p @ '' }'' @ nl"

definition rule_text :: "yara_rule \<Rightarrow> string" where
  "rule_text r =
     nl @ ''rule '' @ rule_name r @ nl @ ''{'' @ nl
     @ ''    meta:'' @ nl
     @ ''        description = '' @ [CHR 0x22]
     @ ''The NAS PDU may not be aligned within the entire frame.'' @ [CHR 0x22] @ nl
     @ ''    strings:'' @ nl
     @ concat (map string_line (strings r))
     @ ''    condition:'' @ nl
     @ ''        '' @ concat (map fst (take 1 (strings r)))
     @ concat (map (\<lambda>p. '' or '' @ fst p) (drop 1 (strings r))) @ nl
     @ ''}''"

text \<open>\<^verbatim>\<open>needle = "\n".join(yara_rules(*i) for i in idents)\<close>: the first identity that
  fails to encode raises, and no needle is built.\<close>

fun build_rules :: "identity list \<Rightarrow> py_error + yara_rule list" where
  "build_rules [] = Inr []"
| "build_rules ((t, i) # rest) =
     (case yara_rules t i of
        Inl e \<Rightarrow> Inl e
      | Inr r \<Rightarrow> (case build_rules rest of Inl e \<Rightarrow> Inl e | Inr rs \<Rightarrow> Inr (r # rs)))"

fun join_lines :: "string list \<Rightarrow> string" where
  "join_lines [] = []"
| "join_lines [x] = x"
| "join_lines (x # y # rest) = x @ nl @ join_lines (y # rest)"

definition needle_text :: "yara_rule list \<Rightarrow> string" where
  "needle_text rs = join_lines (map rule_text rs)"

section \<open>The disclosure heuristic (\<^verbatim>\<open>extract.heur_ue_id_sent\<close>)\<close>

text \<open>
  A decoded message is an object of one of the protocol library's message classes. The
  heuristic looks at three of them; of each it reads only the fields below.
  \<^item> \<open>EMMAttachRequest a d\<close>: \<open>a\<close> is \<^verbatim>\<open>msg["EPSAttachType"]["V"].to_int()\<close> and \<open>d\<close> is the
    outcome of \<^verbatim>\<open>msg["EPSID"]["EPSID"].decode()\<close>;
  \<^item> \<open>EMMSecProtNASMessage inner\<close>: \<open>inner\<close> is the decoded payload, if there is one;
    \<^verbatim>\<open>msg["EMMAttachRequest"]\<close> returns it when it is an attach request and raises
    \<^verbatim>\<open>EltErr\<close> otherwise;
  \<^item> \<open>EMMSecurityModeComplete d\<close>: \<open>d\<close> is the outcome of \<^verbatim>\<open>msg["IMEISV"]["ID"].decode()\<close>.
  A \<^verbatim>\<open>decode()\<close> either raises \<^verbatim>\<open>EltErr\<close> or returns a tuple: the pair \<^verbatim>\<open>(t, i)\<close>
  (\<open>Decoded t i\<close>), or a tuple that is no pair (\<open>Unpaired\<close>). The library, which is not part of
  the repository, returns five values for the temporary identity (type code 6) of an
  attach request.
\<close>

datatype decode_result = EltErr | Decoded int id_value | Unpaired

datatype nas_msg =
    EMMAttachRequest int decode_result
  | EMMSecProtNASMessage "nas_msg option"
  | EMMSecurityModeComplete decode_result
  | OtherNASMessage

text \<open>The second component of the returned pair: \<^verbatim>\<open>None\<close>, a note, or the pair \<^verbatim>\<open>(t, i)\<close>.\<close>

datatype heur_message = NoMessage | Note string | Ident int id_value

definition EPS_IMSI_ATTACH :: int where
  "EPS_IMSI_ATTACH = 2"

text \<open>
  Both \<^verbatim>\<open>try\<close> blocks of the source have the same body:
  \<^verbatim>\<open>t, i = ....decode()\<close>
  \<^verbatim>\<open>if i == str(0xA): return (False, "This was previously redacted.")\<close>
  \<^verbatim>\<open>else: return (True, (t, i))\<close>
  \<^verbatim>\<open>except EltErr: return (False, None)\<close>
  The assignment \<^verbatim>\<open>t, i = ...\<close> unpacks exactly two values: on a tuple that is no pair it
  raises ValueError, which the handler for \<^verbatim>\<open>EltErr\<close> does not catch. A value that is
  no string never equals the string \<^verbatim>\<open>str(0xA)\<close>.
\<close>

definition report_identity :: "decode_result \<Rightarrow> py_error + bool \<times> heur_message" where
  "report_identity d =
     (case d of
        EltErr \<Rightarrow> Inr (False, NoMessage)
      | Unpaired \<Rightarrow> Inl ValueError
      | Decoded t i \<Rightarrow>
          if i = IdDigits (py_str 0xA) then Inr (False, Note ''This was previously redacted.'')
          else Inr (True, Ident t i))"

fun heur_ue_id_sent :: "nas_msg \<Rightarrow> py_error + bool \<times> heur_message" where
  "heur_ue_id_sent OtherNASMessage = Inr (False, NoMessage)"
| "heur_ue_id_sent (EMMSecProtNASMessage inner) =
     (case inner of
        Some (EMMAttachRequest a d) \<Rightarrow>
          (if a = EPS_IMSI_ATTACH then report_identity d else Inr (False, NoMessage))
      | _ \<Rightarrow> Inr (False, NoMessage))"
| "heur_ue_id_sent (EMMAttachRequest a d) =
     (if a = EPS_IMSI_ATTACH then report_identity d else Inr (False, NoMessage))"
| "heur_ue_id_sent (EMMSecurityModeComplete d) = report_identity d"

section \<open>Collecting identities from a capture (\<^verbatim>\<open>extract.main\<close>)\<close>

text \<open>
  For every packet the payload after the 16-byte header is parsed as a signalling message
  and handed to the heuristic, inside one \<^verbatim>\<open>try\<close> block that catches TypeError only.
  \<^verbatim>\<open>parse_nas_message\<close> raises TypeError on a payload that is no signalling message, and
  the loop skips such a packet; any other exception, of the parsing (a packet without the
  expected layers) or of the heuristic, is not caught and ends the loop at that packet. A
  packet is modelled by what parsing it yields. The identities are returned in the order
  of their packets.
\<close>

datatype packet = Nas nas_msg | NotNas | Broken py_error

fun extract_main :: "packet list \<Rightarrow> py_error + identity list" where
  "extract_main [] = Inr []"
| "extract_main (NotNas # ps) = extract_main ps"
| "extract_main (Broken e # ps) = (if e = TypeError then extract_main ps else Inl e)"
| "extract_main (Nas msg # ps) =
     (case heur_ue_id_sent msg of
        Inl e \<Rightarrow> (if e = TypeError then extract_main ps else Inl e)
      | Inr (triggered, message) \<Rightarrow>
          (case extract_main ps of
             Inl e \<Rightarrow> Inl e
           | Inr idents \<Rightarrow>
               (case (triggered, message) of
                  (True, Ident t i) \<Rightarrow> Inr ((t, i) # idents)
                | _ \<Rightarrow> Inr idents)))"

section \<open>The digits of a decoded identity\<close>



section \<open>The rule engine and the capture reader\<close>

text \<open>
  Scanning is done by an external rule engine and captures are read by an external packet
  library. Neither is part of the repository, so both are parameters of the model:
  \<^item> \<open>read_capture\<close>: what reading and parsing the bytes of a file yields, either the
    packets or the message of the \<^verbatim>\<open>Scapy_Exception\<close> the reader raises on bytes that are
    no capture;
  \<^item> \<open>compile\<close>: the error \<^verbatim>\<open>yara.compile(needle)\<close> raises, if any;
  \<^item> \<open>scan_bytes\<close>: the matching rules reported for compiled rules and the bytes of a file.
  A scan result lists the matching rules, each with its patterns, each with its matches.
  The run also iterates over a Python set, in an order that depends on the hashes of its
  members and so on the hash seed of the process:
  \<^item> \<open>set_rank\<close>: the rank of a member in that order.
\<close>

datatype ymatch = Match (offset: nat) (len: nat)

datatype ypattern = Pattern (pattern_identifier: string) (pattern_matches: "ymatch list")

datatype matching_rule = MatchingRule (rule_patterns: "ypattern list")

record collaborators =
  read_capture :: "nat list \<Rightarrow> string + packet list"
  compile :: "yara_rule list \<Rightarrow> py_error option"
  scan_bytes :: "yara_rule list \<Rightarrow> nat list \<Rightarrow> matching_rule list"
  set_rank :: "identity \<Rightarrow> nat"

text \<open>The files of the run: a path that cannot be opened has no entry.\<close>

type_synonym store = "string \<rightharpoonup> nat list"

definition rdpcap :: "collaborators \<Rightarrow> store \<Rightarrow> string \<Rightarrow> py_error + (string + packet list)" where
  "rdpcap c fs h =
     (case fs h of None \<Rightarrow> Inl (OtherError h) | Some bs \<Rightarrow> Inr (read_capture c bs))"

text \<open>\<^verbatim>\<open>scan(needle, haystack)\<close>: compile the rules, then scan the file.\<close>

definition scan :: "collaborators \<Rightarrow> store \<Rightarrow> yara_rule list \<Rightarrow> string \<Rightarrow> py_error + matching_rule list" where
  "scan c fs needle h =
     (case compile c needle of
        Some e \<Rightarrow> Inl e
      | None \<Rightarrow>
          (case fs h of
             None \<Rightarrow> Inl (OtherError h)
           | Some bs \<Rightarrow> Inr (scan_bytes c needle bs)))"

section \<open>Collecting and sorting matches (\<^verbatim>\<open>redact.matches_from\<close>)\<close>

text \<open>
  The three nested loops append every match of every pattern of every matching rule;
  \<^verbatim>\<open>sorted(matches, key=lambda m: m.offset)\<close> is a stable sort on the offset alone.
  \<open>traversal\<close> is the list before sorting; \<open>printed\<close> is what the loop prints for each
  match, in the same order: offset, length and the identifier of the pattern.
\<close>

definition traversal :: "matching_rule list \<Rightarrow> ymatch list" where
  "traversal results = concat (map (\<lambda>mr. concat (map pattern_matches (rule_patterns mr))) results)"

definition printed :: "matching_rule list \<Rightarrow> (nat \<times> nat \<times> string) list" where
  "printed results =
     concat (map (\<lambda>mr. concat (map (\<lambda>p. map (\<lambda>m. (offset m, len m, pattern_identifier p))
                                               (pattern_matches p))
                                     (rule_patterns mr))) results)"

definition matches_from :: "matching_rule list \<Rightarrow> ymatch list" where
  "matches_from results = sort_key offset (traversal results)"

section \<open>Overwriting (\<^verbatim>\<open>redact.overwrite_file\<close>)\<close>

text \<open>
  The file is opened for update; for every match the position is set to the offset and
  \<^verbatim>\<open>m.length * with_bytes\<close> is written. Writing past the end extends the file, and
  writing at a position past the end leaves a gap of zero bytes; setting the position
  alone, with nothing written, leaves the file as it is.
\<close>

definition write_at :: "nat list \<Rightarrow> nat \<Rightarrow> nat list \<Rightarrow> nat list" where
  "write_at bs pos data =
     (if data = [] then bs
      else take pos (bs @ replicate (pos - length bs) 0) @ data @ drop (pos + length data) bs)"

fun overwrite_bytes :: "nat list \<Rightarrow> ymatch list \<Rightarrow> nat \<Rightarrow> nat list" where
  "overwrite_bytes bs [] b = bs"
| "overwrite_bytes bs (m # ms) b = overwrite_bytes (write_at bs (offset m) (replicate (len m) b)) ms b"

definition overwrite_file :: "store \<Rightarrow> string \<Rightarrow> ymatch list \<Rightarrow> nat \<Rightarrow> py_error + store" where
  "overwrite_file fs filename ms with_byte =
     (case fs filename of
        None \<Rightarrow> Inl (OtherError filename)
      | Some bs \<Rightarrow> Inr (fs(filename \<mapsto> overwrite_bytes bs ms with_byte)))"

section \<open>The run (\<^verbatim>\<open>redact.main\<close>)\<close>

text \<open>
  First loop: the identities of all files are collected in a set. Only a
  \<^verbatim>\<open>Scapy_Exception\<close> is caught; the file's name is printed with the message and the loop
  goes on (\<open>rejected_files\<close> keeps these names). The set is represented by the list of its
  members, without duplicates; the order of this list is the order of first insertion and
  is not the order in which the set is iterated.
\<close>

definition add_ident :: "identity \<Rightarrow> identity list \<Rightarrow> identity list" where
  "add_ident i idents = (if i \<in> set idents then idents else idents @ [i])"

text \<open>
  \<^verbatim>\<open>for i in idents\<close>, in the generator that builds the needle: the members of the set in
  the order of their ranks. Every order of the members is the order of some ranking.
\<close>

definition iteration_order :: "collaborators \<Rightarrow> identity list \<Rightarrow> identity list" where
  "iteration_order c idents = sort_key (set_rank c) idents"

fun collect_identities ::
  "collaborators \<Rightarrow> store \<Rightarrow> string list \<Rightarrow> identity list \<Rightarrow> string list
     \<Rightarrow> py_error + (identity list \<times> string list)" where
  "collect_identities c fs [] idents rejected = Inr (idents, rejected)"
| "collect_identities c fs (h # hs) idents rejected =
     (case rdpcap c fs h of
        Inl e \<Rightarrow> Inl e
      | Inr (Inl msg) \<Rightarrow> collect_identities c fs hs idents (rejected @ [h])
      | Inr (Inr packets) \<Rightarrow>
          (case extract_main packets of
             Inl e \<Rightarrow> Inl e
           | Inr found \<Rightarrow> collect_identities c fs hs (fold add_ident found idents) rejected))"

text \<open>
  Second loop: every file is scanned; without a match it is reported and left alone;
  otherwise the matches are overwritten with \<^verbatim>\<open>0xaa\<close> and the file is scanned again. A
  matching rule in the second scan sets the exit status to 2. An exception ends the run
  where it is raised.
\<close>

datatype file_outcome = NoMatches | Verified | Failed

record run =
  status :: "py_error + int"
  report :: "(string \<times> file_outcome) list"
  rejected_files :: "string list"
  files :: store

fun redact_files ::
  "collaborators \<Rightarrow> yara_rule list \<Rightarrow> string list \<Rightarrow> store \<Rightarrow> int
     \<Rightarrow> (string \<times> file_outcome) list \<Rightarrow> run" where
  "redact_files c needle [] fs ex rep = \<lparr> status = Inr ex, report = rep, rejected_files = [], files = fs \<rparr>"
| "redact_files c needle (h # hs) fs ex rep =
     (case scan c fs needle h of
        Inl e \<Rightarrow> \<lparr> status = Inl e, report = rep, rejected_files = [], files = fs \<rparr>
      | Inr results \<Rightarrow>
          (let before = matches_from results in
           if before = [] then redact_files c needle hs fs ex (rep @ [(h, NoMatches)])
           else
             (case overwrite_file fs h before 0xAA of
                Inl e \<Rightarrow> \<lparr> status = Inl e, report = rep, rejected_files = [], files = fs \<rparr>
              | Inr fs' \<Rightarrow>
                  (case scan c fs' needle h of
                     Inl e \<Rightarrow> \<lparr> status = Inl e, report = rep, rejected_files = [], files = fs' \<rparr>
                   | Inr after \<Rightarrow>
                       if length after > 0
                       then redact_files c needle hs fs' 2 (rep @ [(h, Failed)])
                       else redact_files c needle hs fs' ex (rep @ [(h, Verified)])))))"

definition main :: "collaborators \<Rightarrow> string list \<Rightarrow> store \<Rightarrow> run" where
  "main c haystacks fs =
     (case collect_identities c fs haystacks [] [] of
        Inl e \<Rightarrow> \<lparr> status = Inl e, report = [], rejected_files = [], files = fs \<rparr>
      | Inr (idents, rejected) \<Rightarrow>
          (case build_rules (iteration_order c idents) of
             Inl e \<Rightarrow> \<lparr> status = Inl e, report = [], rejected_files = [], files = fs \<rparr>
           | Inr needle \<Rightarrow>
               (redact_files c needle haystacks fs 0 []) \<lparr> rejected_files := rejected \<rparr>))"

section \<open>What the run owes to one file\<close>





section \<open>Re-deriving the digits from a nibble sequence\<close>

text \<open>
  The reading the specification gives of an encoded identity, used to state the round
  trip: the first nibble is the first digit, the second nibble carries the kind in its
  three low bits and the parity of the digit count in its high bit, and the remaining
  nibbles are the other digits, two per byte with the nibbles of each byte exchanged; with
  an even digit count the last nibble is the filler and is dropped. The nibble sequence
  of an integer is its hexadecimal rendering, as \<open>yara_rules\<close> writes it.
\<close>

definition rederive_digits :: "string \<Rightarrow> (nat \<times> string) option" where
  "rederive_digits nibbles =
     (case nibbles of
        d0 # tp # rest \<Rightarrow>
          (case hexval tp of
             None \<Rightarrow> None
           | Some v \<Rightarrow>
               Some (v mod 8,
                     d0 # (if 8 \<le> v then swap_pairs rest else butlast (swap_pairs rest))))
      | _ \<Rightarrow> None)"

text \<open>
  The nibbles of an encoded identity read as whole bytes: the hexadecimal rendering,
  with a leading zero nibble when the rendering has an odd number of digits.
\<close>

definition octets_hex :: "int \<Rightarrow> string" where
  "octets_hex v = (if odd (length (py_hex v)) then CHR ''0'' # py_hex v else py_hex v)"

text \<open>The lower-case form of a hexadecimal digit, as \<^verbatim>\<open>bytes.hex()\<close> writes it.\<close>

definition lowerhex :: "char \<Rightarrow> char" where
  "lowerhex c = (case hexval c of None \<Rightarrow> c | Some d \<Rightarrow> hexchar d)"

section \<open>An engine for literal hex strings\<close>

text \<open>
  A small instance of the collaborators, used to run the model on concrete files: the
  reader rejects an empty file and otherwise yields a fixed packet list; compilation
  rejects two rules of the same name and a hex string that is not a whole number of
  bytes; scanning reports, for every rule, the occurrences of the bytes written by its
  first hex string; the identity set is iterated in the order of insertion.
\<close>

fun occurrences :: "nat list \<Rightarrow> nat list \<Rightarrow> nat \<Rightarrow> ymatch list" where
  "occurrences lit [] pos = []"
| "occurrences lit (b # bs) pos =
     (if take (length lit) (b # bs) = lit then [Match pos (length lit)] else [])
     @ occurrences lit bs (Suc pos)"

definition literal_rule_matches :: "nat list \<Rightarrow> yara_rule \<Rightarrow> matching_rule list" where
  "literal_rule_matches bs r =
     (case strings r of
        [] \<Rightarrow> []
      | (name, hex) # _ \<Rightarrow>
          (case unhexlify hex of
             Inl e \<Rightarrow> []
           | Inr lit \<Rightarrow>
               (if lit = [] \<or> occurrences lit bs 0 = [] then []
                else [MatchingRule [Pattern name (occurrences lit bs 0)]])))"

definition literal_engine :: "packet list \<Rightarrow> collaborators" where
  "literal_engine packets =
     \<lparr> read_capture = (\<lambda>bs. if bs = [] then Inl ''No data could be read!'' else Inr packets),
       compile = (\<lambda>rs. if \<not> distinct (map rule_name rs) then Some (OtherError ''duplicate rule'')
                        else if list_ex (\<lambda>r. list_ex (\<lambda>p. odd (length (snd p))) (strings r)) rs
                        then Some (OtherError ''invalid hex string'')
                        else None),
       scan_bytes = (\<lambda>rs bs. concat (map (literal_rule_matches bs) rs)),
       set_rank = (\<lambda>i. 0) \<rparr>"

section \<open>Example inputs\<close>


text \<open>
  A scan result in which the rules of two identities each have a match at offset 16: the
  third string of the first rule and the first string of the second rule.
\<close>

definition two_rules_same_offset :: "matching_rule list" where
  "two_rules_same_offset =
     [MatchingRule [Pattern ''$ident1'' [], Pattern ''$shift1'' [], Pattern ''$shift2'' [Match 16 8],
                    Pattern ''$shift3'' []],
      MatchingRule [Pattern ''$ident3'' [Match 16 9], Pattern ''$shift1'' [], Pattern ''$shift2'' [],
                    Pattern ''$shift3'' [Match 4 10]]]"

text \<open>
  The scenario of the specification: one attach request with the digits
  \<^verbatim>\<open>001010123456789\<close>, and a file of 64 bytes that holds the eight bytes
  \<^verbatim>\<open>09 10 10 10 32 54 76 98\<close> of this identity at offset 20 among arbitrary bytes.
\<close>

definition scenario_packets :: "packet list" where
  "scenario_packets = [Nas (EMMAttachRequest 2 (Decoded 1 (IdDigits ''001010123456789'')))]"

definition scenario_file :: store where
  "scenario_file =
     [''s.pcap'' \<mapsto>
       [165, 77, 202, 24, 37, 48, 187, 29, 109, 19, 44, 222, 214, 35, 123, 46,
        217, 30, 63, 114, 9, 16, 16, 16, 50, 84, 118, 152, 73, 60, 157, 92,
        52, 96, 190, 49, 32, 30, 105, 254, 218, 160, 238, 232, 185, 153, 127, 92,
        124, 41, 153, 253, 175, 229, 147, 37, 60, 214, 84, 175, 77, 250, 215, 20]]"

text \<open>A capture with the attach requests of two subscribers.\<close>

definition two_imsis :: "packet list" where
  "two_imsis =
     [Nas (EMMAttachRequest 2 (Decoded 1 (IdDigits ''311588144900309''))),
      Nas (EMMAttachRequest 2 (Decoded 1 (IdDigits ''311588144900310'')))]"

text \<open>
  Collaborators whose match does not go away: no packet discloses an identity, every rule
  set compiles, and every file that starts with the byte 7 has one match of one byte at
  offset 1, whatever that byte is.
\<close>

definition sticky_engine :: collaborators where
  "sticky_engine =
     \<lparr> read_capture = (\<lambda>bs. if bs = [] then Inl ''No data could be read!'' else Inr []),
       compile = (\<lambda>rs. None),
       scan_bytes = (\<lambda>rs bs. if take 1 bs = [7]
                              then [MatchingRule [Pattern ''$any'' [Match 1 1]]] else []),
       set_rank = (\<lambda>i. 0) \<rparr>"


text \<open>
  A capture with one attach request, and a file of twelve bytes that holds the eight
  bytes of its identity at offset 2.
\<close>

definition one_imsi :: "packet list" where
  "one_imsi = [Nas (EMMAttachRequest 2 (Decoded 1 (IdDigits ''311588144900309'')))]"

definition imsi_file :: store where
  "imsi_file =
     [''a.pcap'' \<mapsto> [0x07, 0x41, 0x39, 0x11, 0x85, 0x18, 0x44, 0x09, 0x30, 0x90, 0x05, 0xF0]]"

section \<open>Evaluation of the library functions\<close>

lemma py_str_10: "py_str 0xA = ''10''"
  by code_simp

lemma py_str_1: "py_str 1 = ''1''"
  by code_simp

lemma py_str_3: "py_str 3 = ''3''"
  by code_simp

lemma iteration_order_literal: "iteration_order (literal_engine ps) idents = idents"
  by (simp add: iteration_order_def literal_engine_def sort_key_const)

lemma iteration_order_sticky: "iteration_order sticky_engine idents = idents"
  by (simp add: iteration_order_def sticky_engine_def sort_key_const)

section \<open>The disclosure heuristic\<close>

lemma report_identity_cases:
  "report_identity d =
     (case d of
        EltErr \<Rightarrow> Inr (False, NoMessage)
      | Unpaired \<Rightarrow> Inl ValueError
      | Decoded t i \<Rightarrow>
          if i = IdDigits ''10'' then Inr (False, Note ''This was previously redacted.'')
          else Inr (True, Ident t i))"
  by (cases d) (simp_all add: report_identity_def py_str_10)

text \<open>
  Claim C3, as the code has it. For an attach request the heuristic returns an identity
  exactly when the attach type is 2, the identity element decodes to a pair and the
  decoded value is not the string \<^verbatim>\<open>"10"\<close>; the identity returned is the decoded pair
  itself, with whatever type code the element carries. With another attach type, or when
  decoding raises \<^verbatim>\<open>EltErr\<close>, it returns \<^verbatim>\<open>(False, None)\<close>; for the decoded string
  \<^verbatim>\<open>"10"\<close> it returns \<^verbatim>\<open>False\<close> with a note. It returns without an error whenever the attach
  type is not 2 or the element does not decode to a tuple that is no pair.
\<close>

theorem attach_request_detection:
  "(heur_ue_id_sent (EMMAttachRequest a d) = Inr (True, Ident t i)
      \<longleftrightarrow> a = 2 \<and> d = Decoded t i \<and> i \<noteq> IdDigits ''10'')
   \<and> ((\<exists>m. heur_ue_id_sent (EMMAttachRequest a d) = Inr (True, m))
      \<longleftrightarrow> a = 2 \<and> (\<exists>t' i'. d = Decoded t' i' \<and> i' \<noteq> IdDigits ''10''))
   \<and> (a \<noteq> 2 \<or> d = EltErr \<longrightarrow> heur_ue_id_sent (EMMAttachRequest a d) = Inr (False, NoMessage))
   \<and> (a = 2 \<and> d = Decoded t (IdDigits ''10'')
        \<longrightarrow> heur_ue_id_sent (EMMAttachRequest a d)
              = Inr (False, Note ''This was previously redacted.''))
   \<and> (a \<noteq> 2 \<or> d \<noteq> Unpaired \<longrightarrow> (\<exists>r. heur_ue_id_sent (EMMAttachRequest a d) = Inr r))"
  by (cases d) (auto simp: report_identity_cases EPS_IMSI_ATTACH_def)

theorem attach_request_detection_witness:
  "heur_ue_id_sent (EMMAttachRequest 2 (Decoded 1 (IdDigits ''311588144900309'')))
     = Inr (True, Ident 1 (IdDigits ''311588144900309''))
   \<and> heur_ue_id_sent (EMMAttachRequest 1 (Decoded 1 (IdDigits ''311588144900309'')))
     = Inr (False, NoMessage)
   \<and> heur_ue_id_sent (EMMAttachRequest 2 EltErr) = Inr (False, NoMessage)
   \<and> heur_ue_id_sent (EMMAttachRequest 1 Unpaired) = Inr (False, NoMessage)
   \<and> heur_ue_id_sent (EMMAttachRequest 2 (Decoded 2 (IdDigits ''10'')))
     = Inr (False, Note ''This was previously redacted.'')"
  using attach_request_detection [of 2 "Decoded 1 (IdDigits ''311588144900309'')" 1
          "IdDigits ''311588144900309''"]
        attach_request_detection [of 1 "Decoded 1 (IdDigits ''311588144900309'')" 1
          "IdDigits ''311588144900309''"]
        attach_request_detection [of 2 EltErr 1 "IdDigits ''311588144900309''"]
        attach_request_detection [of 1 Unpaired 1 "IdDigits ''311588144900309''"]
        attach_request_detection [of 2 "Decoded 2 (IdDigits ''10'')" 2 "IdDigits ''10''"]
  by simp

text \<open>
  Claim C3 as stated fails three times. An attach request of type 2 whose identity
  element is a device identity (type code 3) is returned with that type code, not with
  the code 1 of the permanent subscriber identity. An identity slot that was overwritten
  with the filler decodes successfully, to the type code 2 and the string \<^verbatim>\<open>"10"\<close>, yet no
  identity is returned. And an attach request of type 2 that carries a temporary
  identity, whose element decodes to five values, does not return at all: the unpacking
  raises ValueError.
\<close>

theorem attach_request_detection_counterexample:
  "heur_ue_id_sent (EMMAttachRequest 2 (Decoded 3 (IdDigits ''490154203237518'')))
       = Inr (True, Ident 3 (IdDigits ''490154203237518''))
   \<and> heur_ue_id_sent (EMMAttachRequest 2 (Decoded 2 (IdDigits ''10'')))
       = Inr (False, Note ''This was previously redacted.'')
   \<and> heur_ue_id_sent (EMMAttachRequest 2 Unpaired) = Inl ValueError"
  by (simp add: report_identity_cases EPS_IMSI_ATTACH_def)

text \<open>
  The error of the temporary identity is not caught on the way up either: the loop of
  \<open>extract_main\<close> catches TypeError only, and the first loop of the run catches the
  reader's exception only, so the run ends before any file is scanned.
\<close>

lemma temporary_identity_ends_extraction:
  "extract_main ps = Inr found
     \<Longrightarrow> extract_main (ps @ Nas (EMMAttachRequest 2 Unpaired) # qs) = Inl ValueError"
proof (induction ps arbitrary: found)
  case Nil
  then show ?case by (simp add: report_identity_cases EPS_IMSI_ATTACH_def)
next
  case (Cons p ps)
  show ?case
  proof (cases p)
    case (Nas msg)
    show ?thesis
    proof (cases "heur_ue_id_sent msg")
      case (Inl e)
      with Cons.prems Nas have "e = TypeError" and "extract_main ps = Inr found"
        by (auto split: if_splits)
      with Cons.IH Inl Nas show ?thesis by simp
    next
      case (Inr r)
      obtain tr m where r: "r = (tr, m)" by (cases r)
      from Cons.prems Nas Inr r obtain f where "extract_main ps = Inr f"
        by (auto split: sum.splits)
      from Cons.IH [OF this] show ?thesis using Nas Inr r by simp
    qed
  next
    case NotNas
    with Cons show ?thesis by simp
  next
    case (Broken e)
    with Cons show ?thesis by (auto split: if_splits)
  qed
qed





lemma set_iteration_order: "set (iteration_order c idents) = set idents"
  by (simp add: iteration_order_def)









text \<open>
  The test compares the whole value: every other decoded value is returned as an identity
  on each of the three paths, also a digit string that only begins or ends with the two
  characters of the sentinel.
\<close>

lemma sentinel_test_whole_value:
  "i \<noteq> IdDigits ''10'' \<Longrightarrow>
     heur_ue_id_sent (EMMAttachRequest 2 (Decoded t i)) = Inr (True, Ident t i)
   \<and> heur_ue_id_sent (EMMSecProtNASMessage (Some (EMMAttachRequest 2 (Decoded t i))))
       = Inr (True, Ident t i)
   \<and> heur_ue_id_sent (EMMSecurityModeComplete (Decoded t i)) = Inr (True, Ident t i)"
  by (simp add: report_identity_cases EPS_IMSI_ATTACH_def)

section \<open>Collecting and sorting matches\<close>

lemma printed_traversal: "map (\<lambda>p. Match (fst p) (fst (snd p))) (printed r) = traversal r"
  by (simp add: printed_def traversal_def map_concat comp_def)

text \<open>
  Claim C7, as the code has it. \<open>matches_from\<close> returns exactly the matches the engine
  reported for the patterns of the matching rules, each as often as it was reported
  (overlapping ones included), in ascending order of offset; matches with the same offset
  keep the order in which the loops met them (rule, then pattern, then match), which is
  the order of the printed lines. The identifier of the pattern plays no part.
\<close>

theorem matches_from_sorted_stable:
  "mset (matches_from results) = mset (traversal results)
   \<and> sorted (map offset (matches_from results))
   \<and> filter (\<lambda>m. offset m = k) (matches_from results)
       = filter (\<lambda>m. offset m = k) (traversal results)
   \<and> traversal results = map (\<lambda>p. Match (fst p) (fst (snd p))) (printed results)"
  by (simp add: matches_from_def sort_key_stable printed_traversal)

text \<open>
  Claim C7 as stated fails on the tie-break: of two matches at offset 16 the one of
  \<^verbatim>\<open>$shift2\<close> (8 bytes) is returned before the one of \<^verbatim>\<open>$ident3\<close> (9 bytes), although
  \<^verbatim>\<open>$ident3\<close> is the smaller identifier.
\<close>

theorem matches_from_tie_counterexample:
  "printed two_rules_same_offset = [(16, 8, ''$shift2''), (16, 9, ''$ident3''), (4, 10, ''$shift3'')]
   \<and> matches_from two_rules_same_offset = [Match 4 10, Match 16 8, Match 16 9]
   \<and> ''$ident3'' < ''$shift2''"
  by (simp add: printed_def matches_from_def traversal_def two_rules_same_offset_def)

section \<open>The encoder and the rule text at concrete identities\<close>

lemmas hex_eval = py_hex_def hex_nat.simps hexchar_def hex_lower_def

lemma octets_001: "identity_octets 1 ''001010123456789'' = Inr 653039607718639256"
  by code_simp

lemma hex_001: "py_hex 653039607718639256 = ''910101032547698''"
  by (simp add: hex_eval)

lemma hex_001_1: "py_hex 1306079215437278512 = ''1220202064a8ed30''"
  by (simp add: hex_eval)

lemma hex_001_2: "py_hex 2612158430874557024 = ''24404040c951da60''"
  by (simp add: hex_eval)

lemma hex_001_3: "py_hex 5224316861749114048 = ''4880808192a3b4c0''"
  by (simp add: hex_eval)

lemma rules_001:
  "yara_rules 1 (IdDigits ''001010123456789'') =
     Inr \<lparr> rule_name = ''mobile_id_type1'',
           strings = [(''$ident1'', ''910101032547698''), (''$shift1'', ''??20202064a8ed3?''),
                      (''$shift2'', ''??404040c951da6?''), (''$shift3'', ''04??0808192a3b4c?'')] \<rparr>"
  by (simp add: yara_rules_def Let_def octets_001 hex_001 hex_001_1 hex_001_2 hex_001_3 py_str_1
        mask_shift12_def mask_shift3_def)

lemma collect_scenario:
  "collect_identities (literal_engine scenario_packets) scenario_file [''s.pcap''] [] []
     = Inr ([(1, IdDigits ''001010123456789'')], [])"
  by (simp add: rdpcap_def literal_engine_def scenario_packets_def scenario_file_def
        report_identity_cases EPS_IMSI_ATTACH_def add_ident_def)

lemma build_scenario:
  "build_rules [(1, IdDigits ''001010123456789'')] =
     Inr [\<lparr> rule_name = ''mobile_id_type1'',
             strings = [(''$ident1'', ''910101032547698''), (''$shift1'', ''??20202064a8ed3?''),
                        (''$shift2'', ''??404040c951da6?''), (''$shift3'', ''04??0808192a3b4c?'')] \<rparr>]"
  by (simp add: rules_001)

lemma run_scenario:
  "status (main (literal_engine scenario_packets) [''s.pcap''] scenario_file)
     = Inl (OtherError ''invalid hex string'')
   \<and> report (main (literal_engine scenario_packets) [''s.pcap''] scenario_file) = []
   \<and> files (main (literal_engine scenario_packets) [''s.pcap''] scenario_file) = scenario_file"
proof -
  have step: "main (literal_engine scenario_packets) [''s.pcap''] scenario_file =
          (redact_files (literal_engine scenario_packets)
             [\<lparr> rule_name = ''mobile_id_type1'',
                 strings = [(''$ident1'', ''910101032547698''), (''$shift1'', ''??20202064a8ed3?''),
                            (''$shift2'', ''??404040c951da6?''),
                            (''$shift3'', ''04??0808192a3b4c?'')] \<rparr>]
             [''s.pcap''] scenario_file 0 []) \<lparr> rejected_files := [] \<rparr>"
    by (simp add: main_def collect_scenario iteration_order_literal build_scenario
          del: build_rules.simps collect_identities.simps redact_files.simps)
  show ?thesis
    unfolding step
    by (simp add: scan_def literal_engine_def)
qed

text \<open>
  Claim C1, evaluated on the code. For the digits \<^verbatim>\<open>001010123456789\<close> of kind 1 the
  identity occupies the eight bytes \<^verbatim>\<open>09 10 10 10 32 54 76 98\<close> of a byte-aligned
  message, which is the literal handed to \<^verbatim>\<open>int\<close>. The integer drops the leading zero,
  so the unshifted hex string of the rule has 15 nibbles and the third shifted string has
  17: neither is a whole number of bytes, and the unshifted string does not denote the
  eight bytes of the identity. With an engine that refuses such a hex string the run
  over the 64-byte file of the scenario raises at the first scan: no match is reported,
  the file is not verified and its bytes stay as they were.
\<close>

theorem leading_zero_identity_patterns:
  "identity_literal 1 ''001010123456789'' = Inr ''0910101032547698''
   \<and> yara_rules 1 (IdDigits ''001010123456789'') =
     Inr \<lparr> rule_name = ''mobile_id_type1'',
           strings = [(''$ident1'', ''910101032547698''), (''$shift1'', ''??20202064a8ed3?''),
                      (''$shift2'', ''??404040c951da6?''), (''$shift3'', ''04??0808192a3b4c?'')] \<rparr>
   \<and> length ''910101032547698'' = 15
   \<and> length ''04??0808192a3b4c?'' = 17
   \<and> unhexlify ''910101032547698'' = Inl ValueError
   \<and> unhexlify ''0910101032547698'' = Inr [0x09, 0x10, 0x10, 0x10, 0x32, 0x54, 0x76, 0x98]
   \<and> status (main (literal_engine scenario_packets) [''s.pcap''] scenario_file)
       = Inl (OtherError ''invalid hex string'')
   \<and> report (main (literal_engine scenario_packets) [''s.pcap''] scenario_file) = []
   \<and> files (main (literal_engine scenario_packets) [''s.pcap''] scenario_file) = scenario_file"
proof -
  have "identity_literal 1 ''001010123456789'' = Inr ''0910101032547698''"
    by code_simp
  moreover have "unhexlify ''910101032547698'' = Inl ValueError"
    by code_simp
  moreover have "unhexlify ''0910101032547698'' = Inr [0x09, 0x10, 0x10, 0x10, 0x32, 0x54, 0x76, 0x98]"
    by code_simp
  ultimately show ?thesis
    using rules_001 run_scenario by simp
qed

lemma octets_imei: "identity_octets 3 ''490154203237518'' = Inr 75014577884142655361"
  by code_simp

lemma hex_imei: "py_hex 75014577884142655361 = ''41109512430325781''"
  by (simp add: hex_eval)

text \<open>
  For kind 3 and the 15 digits \<^verbatim>\<open>490154203237518\<close> the type-and-parity number 11 is
  rendered in decimal as the two characters \<^verbatim>\<open>11\<close>, so the result has 17 nibbles instead
  of 16 and its second nibble is 1, not the nibble \<^verbatim>\<open>b\<close> that combines the kind 3 with
  the parity bit.
\<close>

lemma odd_device_identity_encoding:
  "identity_octets 3 ''490154203237518'' = Inr 75014577884142655361
   \<and> py_hex 75014577884142655361 = ''41109512430325781''
   \<and> length ''41109512430325781'' = 17
   \<and> 2 + length ''490154203237518'' - 1 = 16
   \<and> ''41109512430325781'' ! 1 = CHR ''1''
   \<and> hexchar (3 + 8) = CHR ''b''"
  using octets_imei hex_imei by (simp add: hexchar_def hex_lower_def)

text \<open>
  Claim C2, evaluated on the code. Re-deriving the digits from the nibbles of the same
  result yields kind 1 and the 15 digits \<^verbatim>\<open>401592134305287\<close>, not kind 3 and the digits
  that were encoded; read as whole bytes, with a leading zero nibble, the result yields
  kind 4 and 16 digits.
\<close>

theorem odd_device_identity_round_trip:
  "identity_octets 3 ''490154203237518'' = Inr 75014577884142655361
   \<and> rederive_digits (py_hex 75014577884142655361) = Some (1, ''401592134305287'')
   \<and> rederive_digits (py_hex 75014577884142655361) \<noteq> Some (3, ''490154203237518'')
   \<and> rederive_digits (CHR ''0'' # py_hex 75014577884142655361) = Some (4, ''0119015420323751'')
   \<and> rederive_digits (CHR ''0'' # py_hex 75014577884142655361) \<noteq> Some (3, ''490154203237518'')"
proof -
  have "rederive_digits ''41109512430325781'' = Some (1, ''401592134305287'')"
    by code_simp
  moreover have "rederive_digits ''041109512430325781'' = Some (4, ''0119015420323751'')"
    by code_simp
  ultimately show ?thesis using octets_imei hex_imei by simp
qed

section \<open>Shape of the shifted hex strings\<close>

lemma hex_nat_nonempty: "hex_nat n \<noteq> []"
  by (subst hex_nat.simps) simp

lemma py_hex_nonempty: "py_hex i \<noteq> []"
  by (simp add: py_hex_def hex_nat_nonempty)

lemma mask_shift12_alt: "mask_shift12 s = [CHR ''?'', CHR ''?''] @ (drop 2 (butlast s) @ [CHR ''?''])"
  by (simp add: mask_shift12_def)

lemma mask_shift12_shape:
  assumes "3 \<le> length s"
  shows "length (mask_shift12 s) = length s
         \<and> (\<forall>i<length s. mask_shift12 s ! i =
               (if i < 2 \<or> i = length s - 1 then CHR ''?'' else s ! i))"
proof -
  have len: "length (mask_shift12 s) = length s"
    using assms by (simp add: mask_shift12_def)
  have "mask_shift12 s ! i = (if i < 2 \<or> i = length s - 1 then CHR ''?'' else s ! i)"
    if i: "i < length s" for i
  proof (cases "i < 2")
    case True
    then have "i = 0 \<or> i = 1" by linarith
    then show ?thesis using True by (auto simp: mask_shift12_def)
  next
    case False
    then have eq: "mask_shift12 s ! i = (drop 2 (butlast s) @ [CHR ''?'']) ! (i - 2)"
      unfolding mask_shift12_alt by (simp add: nth_append eval_nat_numeral)
    show ?thesis
    proof (cases "i = length s - 1")
      case True
      then have "(drop 2 (butlast s) @ [CHR ''?'']) ! (i - 2) = CHR ''?''"
        using assms by (simp add: nth_append)
      with eq True show ?thesis by simp
    next
      case F2: False
      have b: "i < length (butlast s)" using i F2 by simp
      have a: "i - 2 < length (drop 2 (butlast s))" using b False by simp
      have "(drop 2 (butlast s) @ [CHR ''?'']) ! (i - 2) = drop 2 (butlast s) ! (i - 2)"
        using a by (simp only: nth_append if_True)
      also have "\<dots> = butlast s ! (2 + (i - 2))"
        using b False by (intro nth_drop) simp
      also have "2 + (i - 2) = i" using False by simp
      also have "butlast s ! i = s ! i" using b by (rule nth_butlast)
      finally show ?thesis using eq False F2 by simp
    qed
  qed
  with len show ?thesis by blast
qed

lemma mask_shift3_alt:
  "mask_shift3 (c # cs) =
     Inr ([CHR ''0'', c, CHR ''?'', CHR ''?''] @ (drop 3 (butlast (c # cs)) @ [CHR ''?'']))"
  by (simp add: mask_shift3_def)

lemma mask_shift3_shape:
  assumes "4 \<le> length s"
  shows "\<exists>p. mask_shift3 s = Inr p \<and> length p = length s + 1
           \<and> p ! 0 = CHR ''0'' \<and> p ! 1 = s ! 0 \<and> p ! 2 = CHR ''?'' \<and> p ! 3 = CHR ''?''
           \<and> p ! length s = CHR ''?''
           \<and> (\<forall>i. 4 \<le> i \<and> i < length s \<longrightarrow> p ! i = s ! (i - 1))"
proof -
  from assms obtain c cs where s: "s = c # cs" by (cases s) auto
  define q where "q = drop 3 (butlast s) @ [CHR ''?'']"
  define p where "p = [CHR ''0'', c, CHR ''?'', CHR ''?''] @ q"
  have m: "mask_shift3 s = Inr p"
    unfolding s mask_shift3_alt p_def q_def s by simp
  have lq: "length q = length s - 3"
    using assms by (simp add: q_def)
  have len: "length p = length s + 1"
    using assms lq by (simp add: p_def)
  have tail: "p ! i = q ! (i - 4)" if "4 \<le> i" for i
    using that by (simp add: p_def nth_append eval_nat_numeral)
  have last: "p ! length s = CHR ''?''"
  proof -
    have "q ! (length s - 4) = CHR ''?''"
      using assms by (simp add: q_def nth_append)
    with tail [of "length s"] assms show ?thesis by simp
  qed
  have mid: "p ! i = s ! (i - 1)" if "4 \<le> i" "i < length s" for i
  proof -
    have b: "i - 1 < length (butlast s)" using that by simp
    have a: "i - 4 < length (drop 3 (butlast s))" using that by simp
    have "q ! (i - 4) = drop 3 (butlast s) ! (i - 4)"
      unfolding q_def using a by (simp only: nth_append if_True)
    also have "\<dots> = butlast s ! (3 + (i - 4))"
      using b that by (intro nth_drop) simp
    also have "3 + (i - 4) = i - 1" using that by simp
    also have "butlast s ! (i - 1) = s ! (i - 1)" using b by (rule nth_butlast)
    finally show ?thesis using tail [of i] that by simp
  qed
  have "p ! 0 = CHR ''0''" "p ! 1 = s ! 0" "p ! 2 = CHR ''?''" "p ! 3 = CHR ''?''"
    by (simp_all add: p_def s eval_nat_numeral)
  with m len last mid show ?thesis by blast
qed

lemma yara_rules_digits:
  assumes "identity_octets typ ds = Inr v"
  shows "yara_rules typ (IdDigits ds) =
     (case mask_shift3 (py_hex (v * 8)) of
        Inl e \<Rightarrow> Inl e
      | Inr p3 \<Rightarrow>
          Inr \<lparr> rule_name = ''mobile_id_type'' @ py_str typ,
                strings = [(''$ident'' @ py_str typ, py_hex v),
                           (''$shift1'', mask_shift12 (py_hex (v * 2))),
                           (''$shift2'', mask_shift12 (py_hex (v * 4))),
                           (''$shift3'', p3)] \<rparr>)"
  using assms by (simp add: yara_rules_def Let_def)

lemma octets_311: "identity_octets 1 ''311588144900309'' = Inr 4112214274033135760"
  by code_simp

lemma hex_311: "py_hex 4112214274033135760 = ''3911851844093090''"
  by (simp add: hex_eval)

lemma hex_311_1: "py_hex 8224428548066271520 = ''72230a3088126120''"
  by (simp add: hex_eval)

lemma hex_311_2: "py_hex 16448857096132543040 = ''e44614611024c240''"
  by (simp add: hex_eval)

lemma hex_311_3: "py_hex 32897714192265086080 = ''1c88c28c220498480''"
  by (simp add: hex_eval)

lemma rules_311:
  "yara_rules 1 (IdDigits ''311588144900309'') =
     Inr \<lparr> rule_name = ''mobile_id_type1'',
           strings = [(''$ident1'', ''3911851844093090''), (''$shift1'', ''??230a308812612?''),
                      (''$shift2'', ''??4614611024c24?''), (''$shift3'', ''01??8c28c22049848?'')] \<rparr>"
  by (simp add: yara_rules_def Let_def octets_311 hex_311 hex_311_1 hex_311_2 hex_311_3 py_str_1
        mask_shift12_def mask_shift3_def)

text \<open>
  Claim C5, as the code has it. Every identity that encodes to a value \<open>v\<close> yields one rule
  with exactly four hex strings: the unshifted rendering of \<open>v\<close> and one string for each
  shift. For the shifts by 1 and 2 (when the rendering of the shifted value has at least
  three nibbles) the string is that rendering with its two leading nibbles and its last
  nibble replaced by wildcards and every other nibble kept. For the shift by 3 (when the
  rendering has at least four nibbles) the string is one nibble longer than the rendering:
  a literal \<^verbatim>\<open>0\<close>, the leading nibble of the rendering kept literal, two wildcards in
  place of its second and third nibble, the following nibbles kept, and a wildcard in
  place of the last one.
\<close>

theorem shifted_patterns:
  assumes "identity_octets typ ds = Inr v"
  shows "\<exists>p1 p2 p3.
     yara_rules typ (IdDigits ds) =
       Inr \<lparr> rule_name = ''mobile_id_type'' @ py_str typ,
             strings = [(''$ident'' @ py_str typ, py_hex v), (''$shift1'', p1),
                        (''$shift2'', p2), (''$shift3'', p3)] \<rparr>
     \<and> (3 \<le> length (py_hex (v * 2)) \<longrightarrow>
          length p1 = length (py_hex (v * 2))
          \<and> (\<forall>i<length p1. p1 ! i =
                (if i < 2 \<or> i = length p1 - 1 then CHR ''?'' else py_hex (v * 2) ! i)))
     \<and> (3 \<le> length (py_hex (v * 4)) \<longrightarrow>
          length p2 = length (py_hex (v * 4))
          \<and> (\<forall>i<length p2. p2 ! i =
                (if i < 2 \<or> i = length p2 - 1 then CHR ''?'' else py_hex (v * 4) ! i)))
     \<and> (4 \<le> length (py_hex (v * 8)) \<longrightarrow>
          length p3 = length (py_hex (v * 8)) + 1
          \<and> p3 ! 0 = CHR ''0'' \<and> p3 ! 1 = py_hex (v * 8) ! 0
          \<and> p3 ! 2 = CHR ''?'' \<and> p3 ! 3 = CHR ''?''
          \<and> p3 ! (length p3 - 1) = CHR ''?''
          \<and> (\<forall>i. 4 \<le> i \<and> i < length p3 - 1 \<longrightarrow> p3 ! i = py_hex (v * 8) ! (i - 1)))"
proof -
  obtain c cs where s3: "py_hex (v * 8) = c # cs"
    using py_hex_nonempty [of "v * 8"] by (cases "py_hex (v * 8)") auto
  then obtain p3 where p3: "mask_shift3 (py_hex (v * 8)) = Inr p3"
    by (simp add: mask_shift3_def)
  have rule: "yara_rules typ (IdDigits ds) =
       Inr \<lparr> rule_name = ''mobile_id_type'' @ py_str typ,
             strings = [(''$ident'' @ py_str typ, py_hex v),
                        (''$shift1'', mask_shift12 (py_hex (v * 2))),
                        (''$shift2'', mask_shift12 (py_hex (v * 4))),
                        (''$shift3'', p3)] \<rparr>"
    using yara_rules_digits [OF assms] p3 by simp
  have s1: "3 \<le> length (py_hex (v * 2)) \<longrightarrow>
          length (mask_shift12 (py_hex (v * 2))) = length (py_hex (v * 2))
          \<and> (\<forall>i<length (mask_shift12 (py_hex (v * 2))). mask_shift12 (py_hex (v * 2)) ! i =
                (if i < 2 \<or> i = length (mask_shift12 (py_hex (v * 2))) - 1 then CHR ''?''
                 else py_hex (v * 2) ! i))"
    using mask_shift12_shape [of "py_hex (v * 2)"] by simp
  have s2: "3 \<le> length (py_hex (v * 4)) \<longrightarrow>
          length (mask_shift12 (py_hex (v * 4))) = length (py_hex (v * 4))
          \<and> (\<forall>i<length (mask_shift12 (py_hex (v * 4))). mask_shift12 (py_hex (v * 4)) ! i =
                (if i < 2 \<or> i = length (mask_shift12 (py_hex (v * 4))) - 1 then CHR ''?''
                 else py_hex (v * 4) ! i))"
    using mask_shift12_shape [of "py_hex (v * 4)"] by simp
  have s3': "4 \<le> length (py_hex (v * 8)) \<longrightarrow>
          length p3 = length (py_hex (v * 8)) + 1
          \<and> p3 ! 0 = CHR ''0'' \<and> p3 ! 1 = py_hex (v * 8) ! 0
          \<and> p3 ! 2 = CHR ''?'' \<and> p3 ! 3 = CHR ''?''
          \<and> p3 ! (length p3 - 1) = CHR ''?''
          \<and> (\<forall>i. 4 \<le> i \<and> i < length p3 - 1 \<longrightarrow> p3 ! i = py_hex (v * 8) ! (i - 1))"
    using mask_shift3_shape [of "py_hex (v * 8)"] p3 by auto
  from rule s1 s2 s3' show ?thesis by blast
qed


theorem shifted_patterns_witness:
  "identity_octets 1 ''311588144900309'' = Inr 4112214274033135760
   \<and> 3 \<le> length (py_hex (4112214274033135760 * 2))
   \<and> 3 \<le> length (py_hex (4112214274033135760 * 4))
   \<and> 4 \<le> length (py_hex (4112214274033135760 * 8))
   \<and> yara_rules 1 (IdDigits ''311588144900309'') =
     Inr \<lparr> rule_name = ''mobile_id_type1'',
           strings = [(''$ident1'', ''3911851844093090''), (''$shift1'', ''??230a308812612?''),
                      (''$shift2'', ''??4614611024c24?''), (''$shift3'', ''01??8c28c22049848?'')] \<rparr>"
  using shifted_patterns [OF octets_311] octets_311 rules_311
  by (simp add: hex_311_1 hex_311_2 hex_311_3)

text \<open>
  Claim C5 as stated fails for the shift by 3: the string begins with the two literal
  nibbles \<^verbatim>\<open>01\<close>, not with two wildcards, and it has 18 nibbles where the value shifted
  by 3 has 17.
\<close>

theorem shifted_patterns_counterexample:
  "yara_rules 1 (IdDigits ''311588144900309'') =
     Inr \<lparr> rule_name = ''mobile_id_type1'',
           strings = [(''$ident1'', ''3911851844093090''), (''$shift1'', ''??230a308812612?''),
                      (''$shift2'', ''??4614611024c24?''), (''$shift3'', ''01??8c28c22049848?'')] \<rparr>
   \<and> py_hex (4112214274033135760 * 8) = ''1c88c28c220498480''
   \<and> take 2 ''01??8c28c22049848?'' = ''01''
   \<and> length ''01??8c28c22049848?'' = 18
   \<and> length ''1c88c28c220498480'' = 17"
  using rules_311 by (simp add: hex_311_3)

section \<open>Which inputs the encoder accepts\<close>

lemma hex_digitE: "hex_digit c \<Longrightarrow> \<exists>d. hexval c = Some d"
  by (cases "hexval c") (simp_all add: hex_digit_def)

lemma decimal_hex_digit: "decimal_digit c \<Longrightarrow> hex_digit c"
  by (simp add: decimal_digit_def hex_digit_def hexval_def Let_def)

lemma hex_digit_not_space:
  assumes "hex_digit c"
  shows "\<not> py_isspace c \<and> c \<noteq> CHR ''-'' \<and> c \<noteq> CHR ''+''"
  using assms by (auto simp: hex_digit_def hexval_def py_isspace_def Let_def split: if_splits)

lemma hexchar_in_lower: "hexchar n \<in> set hex_lower"
  unfolding hexchar_def by (rule nth_mem) (simp add: hex_lower_def)

lemma hex_lower_hex_digit: "c \<in> set hex_lower \<Longrightarrow> hex_digit c"
  by (auto simp: hex_lower_def hex_digit_def hexval_def)

lemma hex_digit_hexchar: "hex_digit (hexchar n)"
  using hexchar_in_lower hex_lower_hex_digit by blast

lemma hexchar_decimal: "n < 10 \<Longrightarrow> decimal_digit (hexchar n)"
proof -
  assume "n < 10"
  then have "n \<in> {0, 1, 2, 3, 4, 5, 6, 7, 8, 9}" by auto
  then show ?thesis
    by (auto simp: hexchar_def hex_lower_def decimal_digit_def)
qed

lemma dec_nat_decimal: "\<forall>c\<in>set (dec_nat n). decimal_digit c"
proof (induction n rule: dec_nat.induct)
  case (1 n)
  show ?case
  proof (cases "n < 10")
    case True
    then show ?thesis using hexchar_decimal [of n] by (subst dec_nat.simps) simp
  next
    case False
    then show ?thesis
      using 1 hexchar_decimal [of "n mod 10"] by (subst dec_nat.simps) simp
  qed
qed

lemma dec_nat_nonempty: "dec_nat n \<noteq> []"
  by (subst dec_nat.simps) simp

lemma set_swap_pairs: "set (swap_pairs xs) = set xs"
  by (induction xs rule: swap_pairs.induct) auto

lemma length_swap_pairs: "length (swap_pairs xs) = length xs"
  by (induction xs rule: swap_pairs.induct) auto

lemma unhexlify_total:
  "even (length xs) \<Longrightarrow> \<forall>c\<in>set xs. hex_digit c \<Longrightarrow> \<exists>bs. unhexlify xs = Inr bs"
proof (induction xs rule: swap_pairs.induct)
  case (1 a b rest)
  from "1.prems" obtain h l where hl: "hexval a = Some h" "hexval b = Some l"
    using hex_digitE [of a] hex_digitE [of b] by auto
  from "1.prems" have "even (length rest)" "\<forall>c\<in>set rest. hex_digit c" by simp_all
  then obtain bs where "unhexlify rest = Inr bs" using "1.IH" by blast
  with hl show ?case by simp
qed simp_all

lemma encode_bcd_total:
  assumes "\<forall>c\<in>set ds. hex_digit c"
  shows "\<exists>bs. encode_bcd ds = Inr bs"
proof -
  have F: "hex_digit CHR ''F''" by (simp add: hex_digit_def hexval_def)
  show ?thesis
  proof (cases "length ds mod 2 = 1")
    case True
    then have "even (length (swap_pairs (ds @ ''F'')))"
      by (simp add: length_swap_pairs) presburger
    moreover have "\<forall>c\<in>set (swap_pairs (ds @ ''F'')). hex_digit c"
      using assms F by (simp add: set_swap_pairs)
    ultimately show ?thesis
      using True unhexlify_total by (simp add: encode_bcd_def)
  next
    case False
    then have "even (length (swap_pairs ds))"
      by (simp add: length_swap_pairs) presburger
    moreover have "\<forall>c\<in>set (swap_pairs ds). hex_digit c"
      using assms by (simp add: set_swap_pairs)
    ultimately show ?thesis
      using False unhexlify_total by (simp add: encode_bcd_def)
  qed
qed

lemma bytes_hex_hex_digit: "\<forall>c\<in>set (bytes_hex bs). hex_digit c"
  by (auto simp: bytes_hex_def hex_digit_hexchar)

lemma hex_digits_total:
  "\<forall>c\<in>set s. hex_digit c \<Longrightarrow> 0 \<le> acc \<Longrightarrow> \<exists>v. hex_digits acc s = Some v \<and> 0 \<le> v"
proof (induction s arbitrary: acc)
  case Nil
  then show ?case by simp
next
  case (Cons c s)
  then obtain d where d: "hexval c = Some d" using hex_digitE [of c] by auto
  have "0 \<le> 16 * acc + int d" using Cons.prems by simp
  with Cons.IH [of "16 * acc + int d"] Cons.prems d show ?case by simp
qed

lemma py_int16_hex:
  assumes "s \<noteq> []" "\<forall>c\<in>set s. hex_digit c"
  shows "py_int16 s = hex_digits 0 s"
proof -
  from assms obtain c cs where s: "s = c # cs" by (cases s) auto
  have h: "\<not> py_isspace c" using assms hex_digit_not_space [of c] by (simp add: s)
  have l: "\<not> py_isspace (last s)" using assms hex_digit_not_space [of "last s"] by simp
  have d1: "dropWhile py_isspace s = s" using h by (simp add: s)
  from assms(1) obtain ys y where r: "s = ys @ [y]" by (cases s rule: rev_cases) auto
  have d2: "dropWhile py_isspace (rev s) = rev s"
    using l by (simp add: r)
  have "c \<noteq> CHR ''-''" "c \<noteq> CHR ''+''" using assms hex_digit_not_space [of c] by (simp_all add: s)
  then show ?thesis
    by (simp add: py_int16_def d1 d2 Let_def) (simp add: s)
qed

text \<open>
  Claim C9, as the code has it. The encoder has no error of its own and checks neither
  the length of the digit string nor the kind code. On an empty digit string it raises
  IndexError. On every non-empty string of decimal digits, of any length, with any kind
  code that is not negative, it returns a value; so it never raises on a valid input.
\<close>

theorem encoder_accepts_decimal_digits:
  "identity_octets idtype [] = Inl IndexError
   \<and> (ds \<noteq> [] \<and> (\<forall>c\<in>set ds. decimal_digit c) \<and> 0 \<le> idtype
        \<longrightarrow> (\<exists>v. identity_octets idtype ds = Inr v \<and> 0 \<le> v))"
proof -
  have empty: "identity_octets idtype [] = Inl IndexError"
    by (simp add: identity_octets_def identity_literal_def)
  have "\<exists>v. identity_octets idtype ds = Inr v \<and> 0 \<le> v"
    if ne: "ds \<noteq> []" and dec: "\<forall>c\<in>set ds. decimal_digit c" and k: "0 \<le> idtype"
  proof -
    from ne obtain d0 rest where ds: "ds = d0 # rest" by (cases ds) auto
    have hx: "\<forall>c\<in>set ds. hex_digit c" using dec decimal_hex_digit by blast
    then obtain bs where bs: "encode_bcd rest = Inr bs"
      using encode_bcd_total [of rest] by (auto simp: ds)
    define tp where "tp = py_str (idtype + 8 * (int (length ds) mod 2))"
    have "0 \<le> idtype + 8 * (int (length ds) mod 2)" using k by simp
    then have tp: "\<forall>c\<in>set tp. hex_digit c"
      using dec_nat_decimal decimal_hex_digit by (auto simp: tp_def py_str_def)
    have lit: "identity_literal idtype ds = Inr (d0 # tp @ bytes_hex bs)"
      using bs by (simp add: identity_literal_def ds tp_def Let_def)
    have all: "\<forall>c\<in>set (d0 # tp @ bytes_hex bs). hex_digit c"
      using hx tp bytes_hex_hex_digit by (auto simp: ds)
    then have "py_int16 (d0 # tp @ bytes_hex bs) = hex_digits 0 (d0 # tp @ bytes_hex bs)"
      by (intro py_int16_hex) simp_all
    moreover obtain v where "hex_digits 0 (d0 # tp @ bytes_hex bs) = Some v" "0 \<le> v"
      using hex_digits_total [OF all, of 0] by auto
    ultimately show ?thesis using lit by (simp add: identity_octets_def)
  qed
  with empty show ?thesis by blast
qed


theorem encoder_accepts_decimal_digits_witness:
  "identity_octets 1 ''311588144900309'' = Inr 4112214274033135760
   \<and> identity_octets 1 [] = Inl IndexError"
  using encoder_accepts_decimal_digits [of 1 "''311588144900309''"] octets_311
  by (simp add: decimal_digit_def)

text \<open>
  Claim C9 as stated fails: a digit string of 16 characters, the unsupported kind code 6
  and a digit string with a hexadecimal letter are all encoded without an error.
\<close>

theorem encoder_accepts_decimal_digits_counterexample:
  "identity_octets 3 ''3534567890123456'' = Inr 944626774536719848694
   \<and> identity_octets 6 ''311588144900309'' = Inr 56786315515758456976
   \<and> identity_octets 1 ''31158814490030a'' = Inr 4112214274033135776"
proof -
  have "identity_octets 3 ''3534567890123456'' = Inr 944626774536719848694"
    by code_simp
  moreover have "identity_octets 6 ''311588144900309'' = Inr 56786315515758456976"
    by code_simp
  moreover have "identity_octets 1 ''31158814490030a'' = Inr 4112214274033135776"
    by code_simp
  ultimately show ?thesis by simp
qed

section \<open>The run over a list of files\<close>















section \<open>Rule names\<close>

lemma yara_rules_name:
  "yara_rules t i = Inr r \<Longrightarrow> rule_name r = ''mobile_id_type'' @ py_str t"
  by (auto simp: yara_rules_def Let_def split: id_value.splits sum.splits)

lemma build_rules_names:
  "build_rules idents = Inr needle
     \<Longrightarrow> map rule_name needle = map (\<lambda>i. ''mobile_id_type'' @ py_str (fst i)) idents"
proof (induction idents arbitrary: needle)
  case Nil
  then show ?case by simp
next
  case (Cons i idents)
  obtain t v where i: "i = (t, v)" by (cases i)
  from Cons.prems i obtain r rs where
    r: "yara_rules t v = Inr r" "build_rules idents = Inr rs" "needle = r # rs"
    by (auto split: sum.splits)
  with Cons.IH i yara_rules_name [OF r(1)] show ?case by simp
qed

lemma redact_files_compile_error:
  "compile c needle = Some e \<Longrightarrow> hs \<noteq> []
     \<Longrightarrow> redact_files c needle hs fs ex rep =
           \<lparr> status = Inl e, report = rep, rejected_files = [], files = fs \<rparr>"
  by (cases hs) (simp_all add: scan_def)

text \<open>
  Claim C10. Every identity of the set contributes one rule, and the name of the rule is
  \<^verbatim>\<open>mobile_id_type\<close> followed by the kind code. When the set holds two different
  identities of the same kind, the rule set holds two rules of the same name; with an
  engine that refuses a rule set with a repeated rule name, the first scan raises, the
  run ends there, no file is reported and no file is changed.
\<close>

theorem same_kind_rules_collide:
  assumes "collect_identities c fs hs [] [] = Inr (idents, rej)"
    and "(k, i1) \<in> set idents" and "(k, i2) \<in> set idents" and "i1 \<noteq> i2"
    and "build_rules (iteration_order c idents) = Inr needle"
    and "\<forall>rs. \<not> distinct (map rule_name rs) \<longrightarrow> compile c rs \<noteq> None"
    and "hs \<noteq> []"
  shows "map rule_name needle
           = map (\<lambda>i. ''mobile_id_type'' @ py_str (fst i)) (iteration_order c idents)
         \<and> \<not> distinct (map rule_name needle)
         \<and> (\<exists>e. status (main c hs fs) = Inl e)
         \<and> report (main c hs fs) = []
         \<and> files (main c hs fs) = fs"
proof -
  have names: "map rule_name needle
                 = map (\<lambda>i. ''mobile_id_type'' @ py_str (fst i)) (iteration_order c idents)"
    using build_rules_names [OF assms(5)] .
  have m1: "(k, i1) \<in> set (iteration_order c idents)"
    and m2: "(k, i2) \<in> set (iteration_order c idents)"
    using assms(2,3) by (simp_all add: set_iteration_order)
  have "\<not> inj_on (\<lambda>i. ''mobile_id_type'' @ py_str (fst i)) (set (iteration_order c idents))"
  proof
    assume "inj_on (\<lambda>i. ''mobile_id_type'' @ py_str (fst i)) (set (iteration_order c idents))"
    from inj_onD [OF this _ m1 m2] have "(k, i1) = (k, i2)" by simp
    with assms(4) show False by simp
  qed
  then have dup: "\<not> distinct (map rule_name needle)"
    by (simp add: names distinct_map)
  with assms(6) obtain e where e: "compile c needle = Some e" by auto
  have "main c hs fs = \<lparr> status = Inl e, report = [], rejected_files = rej, files = fs \<rparr>"
    using assms(1,5) redact_files_compile_error [OF e assms(7)] by (simp add: main_def)
  with names dup show ?thesis by simp
qed


lemma octets_310: "identity_octets 1 ''311588144900310'' = Inr 4112214274033135617"
  by code_simp

lemma hex_310: "py_hex 4112214274033135617 = ''3911851844093001''"
  by (simp add: hex_eval)

lemma hex_310_1: "py_hex 8224428548066271234 = ''72230a3088126002''"
  by (simp add: hex_eval)

lemma hex_310_2: "py_hex 16448857096132542468 = ''e44614611024c004''"
  by (simp add: hex_eval)

lemma hex_310_3: "py_hex 32897714192265084936 = ''1c88c28c220498008''"
  by (simp add: hex_eval)

lemma rules_310:
  "yara_rules 1 (IdDigits ''311588144900310'') =
     Inr \<lparr> rule_name = ''mobile_id_type1'',
           strings = [(''$ident1'', ''3911851844093001''), (''$shift1'', ''??230a308812600?''),
                      (''$shift2'', ''??4614611024c00?''), (''$shift3'', ''01??8c28c22049800?'')] \<rparr>"
  by (simp add: yara_rules_def Let_def octets_310 hex_310 hex_310_1 hex_310_2 hex_310_3 py_str_1
        mask_shift12_def mask_shift3_def)

lemma collect_two:
  "collect_identities (literal_engine two_imsis) [''a.pcap'' \<mapsto> [1, 2, 3]] [''a.pcap''] [] []
     = Inr ([(1, IdDigits ''311588144900309''), (1, IdDigits ''311588144900310'')], [])"
  by (simp add: rdpcap_def literal_engine_def two_imsis_def report_identity_cases
        EPS_IMSI_ATTACH_def add_ident_def)

lemma build_two:
  "build_rules [(1, IdDigits ''311588144900309''), (1, IdDigits ''311588144900310'')] =
     Inr [\<lparr> rule_name = ''mobile_id_type1'',
             strings = [(''$ident1'', ''3911851844093090''), (''$shift1'', ''??230a308812612?''),
                        (''$shift2'', ''??4614611024c24?''), (''$shift3'', ''01??8c28c22049848?'')] \<rparr>,
          \<lparr> rule_name = ''mobile_id_type1'',
             strings = [(''$ident1'', ''3911851844093001''), (''$shift1'', ''??230a308812600?''),
                        (''$shift2'', ''??4614611024c00?''), (''$shift3'', ''01??8c28c22049800?'')] \<rparr>]"
  by (simp add: rules_311 rules_310)

lemma build_two_ordered:
  "build_rules (iteration_order (literal_engine two_imsis)
      [(1, IdDigits ''311588144900309''), (1, IdDigits ''311588144900310'')]) =
     Inr [\<lparr> rule_name = ''mobile_id_type1'',
             strings = [(''$ident1'', ''3911851844093090''), (''$shift1'', ''??230a308812612?''),
                        (''$shift2'', ''??4614611024c24?''), (''$shift3'', ''01??8c28c22049848?'')] \<rparr>,
          \<lparr> rule_name = ''mobile_id_type1'',
             strings = [(''$ident1'', ''3911851844093001''), (''$shift1'', ''??230a308812600?''),
                        (''$shift2'', ''??4614611024c00?''), (''$shift3'', ''01??8c28c22049800?'')] \<rparr>]"
  unfolding iteration_order_literal by (rule build_two)

lemma literal_engine_rejects_duplicates:
  "\<forall>rs. \<not> distinct (map rule_name rs) \<longrightarrow> compile (literal_engine ps) rs \<noteq> None"
  by (simp add: literal_engine_def)

theorem same_kind_rules_collide_witness:
  "collect_identities (literal_engine two_imsis) [''a.pcap'' \<mapsto> [1, 2, 3]] [''a.pcap''] [] []
     = Inr ([(1, IdDigits ''311588144900309''), (1, IdDigits ''311588144900310'')], [])
   \<and> (\<exists>e. status (main (literal_engine two_imsis) [''a.pcap''] [''a.pcap'' \<mapsto> [1, 2, 3]]) = Inl e)
   \<and> report (main (literal_engine two_imsis) [''a.pcap''] [''a.pcap'' \<mapsto> [1, 2, 3]]) = []"
  using same_kind_rules_collide [OF collect_two _ _ _ build_two_ordered
          literal_engine_rejects_duplicates,
          of 1 "IdDigits ''311588144900309''" "IdDigits ''311588144900310''"]
        collect_two
  by simp

section \<open>A run that redacts one identity\<close>

text \<open>
  The model run on the file \<open>imsi_file\<close> with the engine for literal hex strings: the
  identity is found at offset 2, its eight bytes are overwritten with \<^verbatim>\<open>0xaa\<close>, the second
  scan finds nothing, and the file is reported as verified with exit status 0.
\<close>

lemma collect_one:
  "collect_identities (literal_engine one_imsi) imsi_file [''a.pcap''] [] []
     = Inr ([(1, IdDigits ''311588144900309'')], [])"
  by (simp add: rdpcap_def literal_engine_def one_imsi_def imsi_file_def report_identity_cases
        EPS_IMSI_ATTACH_def add_ident_def)

lemma build_one:
  "build_rules [(1, IdDigits ''311588144900309'')] =
     Inr [\<lparr> rule_name = ''mobile_id_type1'',
             strings = [(''$ident1'', ''3911851844093090''), (''$shift1'', ''??230a308812612?''),
                        (''$shift2'', ''??4614611024c24?''), (''$shift3'', ''01??8c28c22049848?'')] \<rparr>]"
  by (simp add: rules_311)

lemma unhexlify_311:
  "unhexlify ''3911851844093090'' = Inr [0x39, 0x11, 0x85, 0x18, 0x44, 0x09, 0x30, 0x90]"
  by code_simp

lemma redaction_example:
  "status (main (literal_engine one_imsi) [''a.pcap''] imsi_file) = Inr 0
   \<and> report (main (literal_engine one_imsi) [''a.pcap''] imsi_file) = [(''a.pcap'', Verified)]
   \<and> files (main (literal_engine one_imsi) [''a.pcap''] imsi_file) ''a.pcap''
       = Some [0x07, 0x41, 0xAA, 0xAA, 0xAA, 0xAA, 0xAA, 0xAA, 0xAA, 0xAA, 0x05, 0xF0]"
proof -
  have step: "main (literal_engine one_imsi) [''a.pcap''] imsi_file =
          (redact_files (literal_engine one_imsi)
             [\<lparr> rule_name = ''mobile_id_type1'',
                 strings = [(''$ident1'', ''3911851844093090''), (''$shift1'', ''??230a308812612?''),
                            (''$shift2'', ''??4614611024c24?''),
                            (''$shift3'', ''01??8c28c22049848?'')] \<rparr>]
             [''a.pcap''] imsi_file 0 []) \<lparr> rejected_files := [] \<rparr>"
    by (simp add: main_def collect_one iteration_order_literal build_one
          del: build_rules.simps collect_identities.simps redact_files.simps)
  show ?thesis
    unfolding step
    by (simp add: scan_def literal_engine_def literal_rule_matches_def unhexlify_311 imsi_file_def
          matches_from_def traversal_def overwrite_file_def write_at_def
          del: unhexlify.simps)
qed

section \<open>Layout of the encoded identity\<close>

lemma hexval_less_16: "hexval c = Some d \<Longrightarrow> d < 16"
  by (auto simp: hexval_def Let_def split: if_splits)

lemma hex_digits_value:
  "\<forall>c\<in>set s. hex_digit c
     \<Longrightarrow> \<exists>t. hex_digits acc s = Some (acc * 16 ^ length s + t) \<and> 0 \<le> t \<and> t < 16 ^ length s"
proof (induction s arbitrary: acc)
  case Nil
  then show ?case by simp
next
  case (Cons c s)
  then obtain d where d: "hexval c = Some d" using hex_digitE [of c] by auto
  then have d16: "int d \<le> 15" using hexval_less_16 [of c d] by simp
  from Cons obtain t where t: "hex_digits (16 * acc + int d) s
        = Some ((16 * acc + int d) * 16 ^ length s + t)" "0 \<le> t" "t < 16 ^ length s"
    by fastforce
  define t' where "t' = int d * 16 ^ length s + t"
  have "0 \<le> t'" using t(2) by (simp add: t'_def)
  moreover have "t' < 16 ^ length (c # s)"
  proof -
    have "int d * 16 ^ length s \<le> 15 * 16 ^ length s"
      using d16 by (intro mult_right_mono) simp_all
    then have "t' < 15 * 16 ^ length s + 16 ^ length s"
      using t(3) unfolding t'_def by linarith
    then show ?thesis by simp
  qed
  moreover have "hex_digits acc (c # s) = Some (acc * 16 ^ length (c # s) + t')"
    using d t(1) by (simp add: t'_def algebra_simps)
  ultimately show ?case by blast
qed

lemma unhexlify_length: "unhexlify xs = Inr bs \<Longrightarrow> length xs = 2 * length bs"
proof (induction xs arbitrary: bs rule: swap_pairs.induct)
  case (1 a b rest)
  then show ?case by (auto split: option.splits sum.splits)
qed simp_all

lemma length_bytes_hex: "length (bytes_hex bs) = 2 * length bs"
  by (induction bs) (simp_all add: bytes_hex_def)

lemma encode_bcd_length:
  "encode_bcd rest = Inr bs \<Longrightarrow> 2 * length bs = (if even (length rest) then length rest else length rest + 1)"
  using unhexlify_length [of "swap_pairs (rest @ ''F'')" bs] unhexlify_length [of "swap_pairs rest" bs]
  by (auto simp: encode_bcd_def length_swap_pairs Let_def odd_iff_mod_2_eq_one split: if_splits)

lemma hexval_hexchar_decimal: "n < 10 \<Longrightarrow> hexval (hexchar n) = Some n"
proof -
  assume "n < 10"
  then have "n \<in> {0, 1, 2, 3, 4, 5, 6, 7, 8, 9}" by auto
  then show ?thesis by (auto simp: hexchar_def hex_lower_def hexval_def)
qed

lemma py_str_digit: "0 \<le> n \<Longrightarrow> n \<le> 9 \<Longrightarrow> py_str n = [hexchar (nat n)]"
  by (simp add: py_str_def dec_nat.simps)


lemma decimal_hexval: "decimal_digit c \<Longrightarrow> \<exists>n. hexval c = Some n \<and> n \<le> 9"
  by (auto simp: decimal_digit_def hexval_def Let_def)

lemma split_value:
  fixes a b t :: int and m :: nat
  assumes "0 \<le> t" "t < 16 ^ m" "0 \<le> b" "b \<le> 15" "0 \<le> a"
  defines "v \<equiv> (16 * a + b) * 16 ^ m + t"
  shows "v div 16 ^ m = 16 * a + b"
    and "v div 16 ^ (m + 1) = a"
    and "(v div 16 ^ m) mod 16 = b"
    and "0 \<le> v"
    and "a \<le> 9 \<Longrightarrow> v < 16 ^ (m + 2)"
proof -
  have pos: "(0::int) < 16 ^ m" by simp
  show d1: "v div 16 ^ m = 16 * a + b"
    using assms(1,2) unfolding v_def by (simp add: div_pos_pos_trivial)
  have "v = a * 16 ^ (m + 1) + (b * 16 ^ m + t)"
    unfolding v_def by (simp add: algebra_simps)
  moreover have "0 \<le> b * 16 ^ m + t" using assms by simp
  moreover have "b * 16 ^ m + t < 16 ^ (m + 1)"
  proof -
    have "b * 16 ^ m \<le> 15 * 16 ^ m" using assms(4) by (intro mult_right_mono) simp_all
    then have "b * 16 ^ m + t < 15 * 16 ^ m + 16 ^ m" using assms(2) by linarith
    then show ?thesis by simp
  qed
  ultimately show "v div 16 ^ (m + 1) = a"
    by (simp add: div_pos_pos_trivial del: power_Suc)
  show "(v div 16 ^ m) mod 16 = b"
    using d1 assms(3,4) by simp
  show "0 \<le> v" using assms unfolding v_def by simp
  show "v < 16 ^ (m + 2)" if "a \<le> 9"
  proof -
    have "16 * a + b \<le> 159" using that assms(4) by simp
    then have "(16 * a + b) * 16 ^ m \<le> 159 * 16 ^ m" by (intro mult_right_mono) simp_all
    then have "v < 159 * 16 ^ m + 16 ^ m" using assms(2) unfolding v_def by linarith
    also have "\<dots> \<le> 16 ^ (m + 2)" by simp
    finally show ?thesis .
  qed
qed

text \<open>
  Claim C6, as the code has it. Take a non-empty string of decimal digits and a kind code
  whose sum with the parity bit is at most 9 (kind 1 with any digit count, kind 3 with
  an even one). The encoder returns a non-negative integer below \<open>16 ^ w\<close>, where the
  number \<open>w\<close> of nibbles is the digit count plus 1 when the count is odd and plus 2 when it
  is even, the filler nibble completing the last byte. Read as \<open>w\<close> nibbles, its nibble 0
  is the first digit and its nibble 1 is the kind code plus 8 exactly when the digit
  count is odd.
\<close>

theorem encoder_layout:
  assumes ds: "ds = d0 # rest"
    and dec: "\<forall>c\<in>set ds. decimal_digit c"
    and k: "0 \<le> k"
    and tp9: "k + 8 * (int (length ds) mod 2) \<le> 9"
  shows "\<exists>v n0. identity_octets k ds = Inr v \<and> hexval d0 = Some n0
           \<and> 0 \<le> v
           \<and> v < 16 ^ (if odd (length ds) then length ds + 1 else length ds + 2)
           \<and> v div 16 ^ (if odd (length ds) then length ds else length ds + 1) = int n0
           \<and> (v div 16 ^ (if odd (length ds) then length ds - 1 else length ds)) mod 16
               = k + 8 * (int (length ds) mod 2)"
proof -
  define tp where "tp = k + 8 * (int (length ds) mod 2)"
  have tp0: "0 \<le> tp" using k by (simp add: tp_def)
  have tp9': "tp \<le> 9" using tp9 by (simp add: tp_def)
  have hx: "\<forall>c\<in>set ds. hex_digit c" using dec decimal_hex_digit by blast
  then obtain bs where bs: "encode_bcd rest = Inr bs"
    using encode_bcd_total [of rest] by (auto simp: ds)
  define tail where "tail = bytes_hex bs"
  define m where "m = length tail"
  have m: "m = (if even (length rest) then length rest else length rest + 1)"
    using encode_bcd_length [OF bs] by (simp add: m_def tail_def length_bytes_hex)
  have lit: "identity_literal k ds = Inr (d0 # hexchar (nat tp) # tail)"
    using bs py_str_digit [OF tp0 tp9']
    by (simp add: identity_literal_def ds tp_def tail_def Let_def)
  have tpv: "hexval (hexchar (nat tp)) = Some (nat tp)"
    using tp0 tp9' by (intro hexval_hexchar_decimal) simp
  have tl: "\<forall>c\<in>set tail. hex_digit c"
    using bytes_hex_hex_digit by (simp add: tail_def)
  have all: "\<forall>c\<in>set (d0 # hexchar (nat tp) # tail). hex_digit c"
    using hx tl hex_digit_hexchar by (simp add: ds)
  have p16: "py_int16 (d0 # hexchar (nat tp) # tail) = hex_digits 0 (d0 # hexchar (nat tp) # tail)"
    using all by (intro py_int16_hex) simp_all
  from dec obtain n0 where n0: "hexval d0 = Some n0" "n0 \<le> 9"
    using decimal_hexval [of d0] by (auto simp: ds)
  obtain t where t: "hex_digits (16 * int n0 + tp) tail
      = Some ((16 * int n0 + tp) * 16 ^ m + t)" "0 \<le> t" "t < 16 ^ m"
    using hex_digits_value [OF tl, of "16 * int n0 + tp"] by (auto simp: m_def)
  define v where "v = (16 * int n0 + tp) * 16 ^ m + t"
  have hd: "hex_digits 0 (d0 # hexchar (nat tp) # tail) = Some v"
    using n0 tpv t(1) tp0 by (simp add: v_def)
  have io: "identity_octets k ds = Inr v"
    using lit p16 hd by (simp add: identity_octets_def)
  have tp15: "tp \<le> 15" using tp9' by simp
  have n0': "int n0 \<le> 9" "0 \<le> int n0" using n0 by simp_all
  note sv = split_value [OF t(2) t(3) tp0 tp15 n0'(2)]
  have e1: "v div 16 ^ (m + 1) = int n0" using sv(2) by (simp add: v_def)
  have e2: "(v div 16 ^ m) mod 16 = tp" using sv(3) by (simp add: v_def)
  have e3: "0 \<le> v" using sv(4) by (simp add: v_def)
  have e4: "v < 16 ^ (m + 2)" using sv(5) [OF n0'(1)] by (simp add: v_def)
  have len: "length ds = length rest + 1" by (simp add: ds)
  show ?thesis
  proof (cases "odd (length ds)")
    case True
    then have "m = length ds - 1" using m len by simp
    with True io n0 e1 e2 e3 e4 show ?thesis
      by (intro exI [of _ v] exI [of _ n0]) (simp add: tp_def)
  next
    case False
    then have "m = length ds" using m len by simp
    with False io n0 e1 e2 e3 e4 show ?thesis
      by (intro exI [of _ v] exI [of _ n0]) (simp add: tp_def)
  qed
qed


theorem encoder_layout_witness:
  "identity_octets 1 ''311588144900309'' = Inr 4112214274033135760
   \<and> hexval CHR ''3'' = Some 3
   \<and> (4112214274033135760 :: int) < 16 ^ 16
   \<and> (4112214274033135760 :: int) div 16 ^ 15 = 3
   \<and> ((4112214274033135760 :: int) div 16 ^ 14) mod 16 = 9"
  using encoder_layout [of "''311588144900309''" "CHR ''3''" "''11588144900309''" 1] octets_311
  by (simp add: decimal_digit_def hexval_def)

lemma octets_14: "identity_octets 1 ''31158814490030'' = Inr 3535753521729712368"
  by code_simp

lemma hex_14: "py_hex 3535753521729712368 = ''31118518440930f0''"
  by (simp add: hex_eval)

text \<open>
  Claim C6 as stated fails on the width for an even digit count: the 14 digits
  \<^verbatim>\<open>31158814490030\<close> of kind 1 are encoded in 16 nibbles, the last but one being the
  filler, where the claim gives \<open>2 + 14 - 1 = 15\<close> nibbles; the value does not fit 60 bits.
\<close>

theorem encoder_layout_counterexample:
  "identity_octets 1 ''31158814490030'' = Inr 3535753521729712368
   \<and> py_hex 3535753521729712368 = ''31118518440930f0''
   \<and> length ''31118518440930f0'' = 16
   \<and> 2 + length ''31158814490030'' - 1 = 15
   \<and> (16 :: int) ^ 15 \<le> 3535753521729712368"
  using octets_14 hex_14 by simp

section \<open>The round trip where the kind and parity fit one nibble\<close>

text \<open>
  When the sum of the kind code and the parity bit is at most 9 its decimal rendering is
  one character, the encoded value read as whole bytes is the literal the encoder built,
  and re-deriving the digits returns the kind and the digit string the encoder was given.
  The sum exceeds 9 only for the kind codes 2 to 7 with an odd digit count, of which the
  tools produce kind 3 (a device identity of 15 digits).
\<close>

lemma hexchar_hexval_lower: "c \<in> set hex_lower \<Longrightarrow> hexval c = Some d \<Longrightarrow> hexchar d = c"
  by (auto simp: hex_lower_def hexval_def hexchar_def)

lemma hex_nat_snoc: "0 < a \<Longrightarrow> d < 16 \<Longrightarrow> hex_nat (16 * a + d) = hex_nat a @ [hexchar d]"
  by (subst hex_nat.simps) (simp add: hexchar_def)

lemma hex_digits_snoc:
  "hex_digits acc (xs @ [c]) =
     (case hex_digits acc xs of None \<Rightarrow> None
      | Some a \<Rightarrow> (case hexval c of None \<Rightarrow> None | Some d \<Rightarrow> Some (16 * a + int d)))"
  by (induction xs arbitrary: acc) (auto split: option.splits)

lemma hex_digits_nonneg: "hex_digits acc s = Some v \<Longrightarrow> 0 \<le> acc \<Longrightarrow> 0 \<le> v"
  by (induction s arbitrary: acc) (auto split: option.splits)

lemma hex_digits_positive: "hex_digits acc s = Some v \<Longrightarrow> 0 < acc \<Longrightarrow> 0 < v"
  by (induction s arbitrary: acc) (auto split: option.splits)

lemma hex_digits_leading:
  assumes "hex_digits 0 (c # s) = Some v" "c \<noteq> CHR ''0''" "c \<in> set hex_lower"
  shows "0 < v"
proof -
  from assms(1) obtain d where d: "hexval c = Some d" "hex_digits (int d) s = Some v"
    by (auto split: option.splits)
  have "d \<noteq> 0"
    using d(1) assms(2,3) by (auto simp: hex_lower_def hexval_def)
  then show ?thesis using hex_digits_positive [OF d(2)] by simp
qed

lemma render_parsed:
  "s \<noteq> [] \<Longrightarrow> set s \<subseteq> set hex_lower \<Longrightarrow> hd s \<noteq> CHR ''0''
     \<Longrightarrow> hex_digits 0 s = Some v \<Longrightarrow> hex_nat (nat v) = s"
proof (induction s arbitrary: v rule: rev_induct)
  case Nil
  then show ?case by simp
next
  case (snoc c xs)
  from snoc.prems(4) obtain a d where a: "hex_digits 0 xs = Some a" and d: "hexval c = Some d"
    and v: "v = 16 * a + int d"
    by (auto simp: hex_digits_snoc split: option.splits)
  have d16: "d < 16" using hexval_less_16 [OF d] .
  have c: "hexchar d = c" using snoc.prems(2) d by (intro hexchar_hexval_lower) auto
  show ?case
  proof (cases "xs = []")
    case True
    then have "a = 0" using a by simp
    then have "nat v = d" using v by simp
    then show ?thesis using True d16 c by (subst hex_nat.simps) simp
  next
    case False
    then obtain y ys where xs: "xs = y # ys" by (cases xs) auto
    have hdx: "hd xs \<noteq> CHR ''0''" using snoc.prems(3) False by simp
    have ih: "hex_nat (nat a) = xs"
      using snoc.IH [OF False _ hdx a] snoc.prems(2) by simp
    have "0 < a" using hex_digits_leading [of y ys a] a hdx snoc.prems(2) by (simp add: xs)
    then have "nat v = 16 * nat a + d" "0 < nat a" using v by simp_all
    then have "hex_nat (nat v) = hex_nat (nat a) @ [hexchar d]"
      using hex_nat_snoc [of "nat a" d] d16 by simp
    then show ?thesis using ih c by simp
  qed
qed


lemma decimal_in_lower: "decimal_digit c \<Longrightarrow> c \<in> set hex_lower"
proof -
  assume d: "decimal_digit c"
  define n where "n = (of_char c :: nat)"
  have "48 \<le> n" "n \<le> 57" using d by (simp_all add: decimal_digit_def n_def)
  then have "n \<in> {48, 49, 50, 51, 52, 53, 54, 55, 56, 57}" by (simp) arith
  then have "n \<in> of_char ` set ''0123456789''" by simp
  then obtain x where x: "x \<in> set ''0123456789''" "n = of_char x" by blast
  from x(2) have "c = x" by (simp add: n_def)
  with x(1) show ?thesis by (auto simp: hex_lower_def)
qed

lemma lowerhex_decimal: "decimal_digit c \<Longrightarrow> lowerhex c = c"
  using decimal_in_lower [of c] hexchar_hexval_lower [of c]
  by (auto simp: lowerhex_def split: option.splits)

lemma lowerhex_F: "lowerhex CHR ''F'' = CHR ''f''"
  by (simp add: lowerhex_def hexval_def hexchar_def hex_lower_def)

lemma unhexlify_render: "unhexlify xs = Inr bs \<Longrightarrow> bytes_hex bs = map lowerhex xs"
proof (induction xs arbitrary: bs rule: swap_pairs.induct)
  case (1 a b rest)
  from "1.prems" obtain h l bs' where hl: "hexval a = Some h" "hexval b = Some l"
    and bs': "unhexlify rest = Inr bs'" and bs: "bs = (16 * h + l) # bs'"
    by (auto split: option.splits sum.splits)
  have "h < 16" "l < 16" using hexval_less_16 hl by blast+
  then have "(16 * h + l) div 16 = h" "(16 * h + l) mod 16 = l" by simp_all
  then have "bytes_hex bs = [hexchar h, hexchar l] @ bytes_hex bs'"
    by (simp add: bytes_hex_def bs)
  with "1.IH" [OF bs'] hl show ?case by (simp add: lowerhex_def)
qed (simp_all add: bytes_hex_def)

lemma swap_pairs_map: "swap_pairs (map f xs) = map f (swap_pairs xs)"
  by (induction xs rule: swap_pairs.induct) simp_all

lemma swap_pairs_twice: "swap_pairs (swap_pairs xs) = xs"
  by (induction xs rule: swap_pairs.induct) simp_all

lemma encode_bcd_tail:
  assumes "\<forall>c\<in>set rest. decimal_digit c" "encode_bcd rest = Inr bs"
  shows "swap_pairs (bytes_hex bs) = (if even (length rest) then rest else rest @ ''f'')"
proof -
  have m: "map lowerhex rest = rest" using assms(1) by (simp add: lowerhex_decimal map_idI)
  show ?thesis
  proof (cases "even (length rest)")
    case True
    then have "unhexlify (swap_pairs rest) = Inr bs"
      using assms(2) by (simp add: encode_bcd_def Let_def)
    from unhexlify_render [OF this] show ?thesis
      using True m by (simp add: swap_pairs_map [symmetric] swap_pairs_twice)
  next
    case False
    then have "length rest mod 2 = 1" by (simp add: odd_iff_mod_2_eq_one)
    then have "unhexlify (swap_pairs (rest @ ''F'')) = Inr bs"
      using assms(2) by (simp add: encode_bcd_def Let_def)
    from unhexlify_render [OF this] show ?thesis
      using False m by (simp add: swap_pairs_map [symmetric] swap_pairs_twice lowerhex_F)
  qed
qed


lemma round_trip_single_nibble:
  assumes ds: "ds = d0 # rest"
    and dec: "\<forall>c\<in>set ds. decimal_digit c"
    and k1: "1 \<le> k" and k7: "k \<le> 7"
    and tp9: "k + 8 * (int (length ds) mod 2) \<le> 9"
  shows "\<exists>v. identity_octets k ds = Inr v \<and> rederive_digits (octets_hex v) = Some (nat k, ds)"
proof -
  define tp where "tp = k + 8 * (int (length ds) mod 2)"
  have tp1: "1 \<le> tp" using k1 by (simp add: tp_def)
  have tp0: "0 \<le> tp" using tp1 by simp
  have tp9': "tp \<le> 9" using tp9 by (simp add: tp_def)
  have decr: "\<forall>c\<in>set rest. decimal_digit c" using dec by (simp add: ds)
  have hx: "\<forall>c\<in>set ds. hex_digit c" using dec decimal_hex_digit by blast
  then obtain bs where bs: "encode_bcd rest = Inr bs"
    using encode_bcd_total [of rest] by (auto simp: ds)
  define tail where "tail = bytes_hex bs"
  define tpc where "tpc = hexchar (nat tp)"
  define s where "s = d0 # tpc # tail"
  have lit: "identity_literal k ds = Inr s"
    using bs py_str_digit [OF tp0 tp9']
    by (simp add: identity_literal_def ds tp_def tail_def tpc_def s_def Let_def)
  have tpv: "hexval tpc = Some (nat tp)"
    unfolding tpc_def using tp0 tp9' by (intro hexval_hexchar_decimal) simp
  have tl: "\<forall>c\<in>set tail. hex_digit c"
    using bytes_hex_hex_digit by (simp add: tail_def)
  have all: "\<forall>c\<in>set s. hex_digit c"
    using hx tl hex_digit_hexchar by (simp add: ds s_def tpc_def)
  have low: "set s \<subseteq> set hex_lower"
    using dec decimal_in_lower hexchar_in_lower
    by (auto simp: s_def ds tpc_def tail_def bytes_hex_def)
  have p16: "py_int16 s = hex_digits 0 s"
    using all by (intro py_int16_hex) (simp_all add: s_def)
  obtain v where v: "hex_digits 0 s = Some v" "0 \<le> v"
    using hex_digits_total [OF all, of 0] by auto
  have io: "identity_octets k ds = Inr v"
    using lit p16 v by (simp add: identity_octets_def)
  have ev: "even (length s)"
    by (simp add: s_def tail_def length_bytes_hex)
  have ph: "py_hex v = hex_nat (nat v)" using v(2) by (simp add: py_hex_def)
  have tpc0: "tpc \<noteq> CHR ''0''"
  proof
    assume "tpc = CHR ''0''"
    then have "hexval tpc = Some 0" by (simp add: hexval_def)
    with tpv tp1 show False by simp
  qed
  have oct: "octets_hex v = s"
  proof (cases "d0 = CHR ''0''")
    case True
    then have "hex_digits 0 (tpc # tail) = Some v"
      using v(1) by (simp add: s_def hexval_def)
    then have "hex_nat (nat v) = tpc # tail"
      using low tpc0 by (intro render_parsed) (simp_all add: s_def)
    then show ?thesis using ph ev True by (simp add: octets_hex_def s_def)
  next
    case False
    then have "hex_nat (nat v) = s"
      using low v(1) by (intro render_parsed) (simp_all add: s_def)
    then show ?thesis using ph ev by (simp add: octets_hex_def)
  qed
  have sw: "swap_pairs tail = (if even (length rest) then rest else rest @ ''f'')"
    using encode_bcd_tail [OF decr bs] by (simp add: tail_def)
  have len: "length ds = length rest + 1" by (simp add: ds)
  have "rederive_digits s = Some (nat k, ds)"
  proof (cases "even (length rest)")
    case True
    then have "int (length ds) mod 2 = 1" using len by presburger
    then have tp: "tp = k + 8" by (simp add: tp_def)
    then have "8 \<le> nat tp" "nat tp mod 8 = nat k" using k1 tp9' by simp_all
    then show ?thesis using tpv sw True by (simp add: rederive_digits_def s_def ds)
  next
    case False
    then have "int (length ds) mod 2 = 0" using len by presburger
    then have tp: "tp = k" by (simp add: tp_def)
    then have "\<not> 8 \<le> nat tp" "nat tp mod 8 = nat k" using k1 k7 by simp_all
    then show ?thesis using tpv sw False by (simp add: rederive_digits_def s_def ds)
  qed
  with io oct show ?thesis by auto
qed

section \<open>The iteration order of the identity set\<close>

text \<open>
  The members of the identity set of a run are distinct, and every arrangement of them is
  the iteration order under some ranking: the model leaves the order of the rules in the
  needle as open as Python leaves the order of a set.
\<close>

lemma distinct_fold_add_ident:
  "distinct idents \<Longrightarrow> distinct (fold add_ident found idents)"
  by (induction found arbitrary: idents) (auto simp: add_ident_def)

lemma collect_distinct:
  "collect_identities c fs hs idents0 rej0 = Inr (idents, rej)
     \<Longrightarrow> distinct idents0 \<Longrightarrow> distinct idents"
proof (induction hs arbitrary: idents0 rej0)
  case Nil
  then show ?case by simp
next
  case (Cons h hs)
  from Cons.prems(1) consider
      (rejected) "collect_identities c fs hs idents0 (rej0 @ [h]) = Inr (idents, rej)"
    | (read) found where
        "collect_identities c fs hs (fold add_ident found idents0) rej0 = Inr (idents, rej)"
    by (auto split: sum.splits)
  then show ?case
  proof cases
    case rejected
    with Cons.IH Cons.prems(2) show ?thesis by blast
  next
    case (read found)
    with Cons.IH distinct_fold_add_ident [OF Cons.prems(2)] show ?thesis by blast
  qed
qed

lemma position_less:
  "x \<in> set ys \<Longrightarrow> length (takeWhile (\<lambda>y. y \<noteq> x) ys) < length ys"
  by (induction ys) auto

lemma nth_position:
  "x \<in> set ys \<Longrightarrow> ys ! length (takeWhile (\<lambda>y. y \<noteq> x) ys) = x"
  by (induction ys) auto

lemma filter_member_distinct:
  "distinct zs \<Longrightarrow> k \<in> set zs \<Longrightarrow> filter (\<lambda>x. k = x) zs = [k]"
  by (induction zs) (auto simp: filter_empty_conv)

lemma position_nth:
  assumes "distinct ys" "i < length ys"
  shows "length (takeWhile (\<lambda>y. y \<noteq> ys ! i) ys) = i"
proof -
  have m: "ys ! i \<in> set ys" using assms(2) by simp
  from nth_position [OF m] position_less [OF m] assms show ?thesis
    by (simp add: nth_eq_iff_index_eq)
qed

lemma sorted_positions:
  assumes "distinct ys"
  shows "sorted (map (\<lambda>x. length (takeWhile (\<lambda>y. y \<noteq> x) ys)) ys)"
proof -
  have "map (\<lambda>x. length (takeWhile (\<lambda>y. y \<noteq> x) ys)) ys
          = map (\<lambda>i. length (takeWhile (\<lambda>y. y \<noteq> ys ! i) ys)) [0..<length ys]"
    by (rule nth_equalityI) simp_all
  also have "\<dots> = map (\<lambda>i. i) [0..<length ys]"
    using position_nth [OF assms] by (intro map_cong) auto
  finally show ?thesis by simp
qed

lemma every_order_has_a_ranking:
  assumes "distinct ys" and "mset xs = mset ys"
  shows "sort_key (\<lambda>x. length (takeWhile (\<lambda>y. y \<noteq> x) ys)) xs = ys"
proof (rule properties_for_sort_key)
  show "mset ys = mset xs" using assms(2) by simp
  show "sorted (map (\<lambda>x. length (takeWhile (\<lambda>y. y \<noteq> x) ys)) ys)"
    using sorted_positions [OF assms(1)] .
  fix k assume k: "k \<in> set ys"
  have sx: "set xs = set ys" using assms(2) by (rule mset_eq_setD)
  have dx: "distinct xs" using assms by (metis mset_eq_imp_distinct_iff)
  have eq: "length (takeWhile (\<lambda>y. y \<noteq> k) ys) = length (takeWhile (\<lambda>y. y \<noteq> x) ys) \<longleftrightarrow> k = x"
    if "x \<in> set ys" for x
    using nth_position [OF k] nth_position [OF that] by metis
  have "filter (\<lambda>x. length (takeWhile (\<lambda>y. y \<noteq> k) ys) = length (takeWhile (\<lambda>y. y \<noteq> x) ys)) ys
          = filter (\<lambda>x. k = x) ys"
    using eq by (intro filter_cong) auto
  moreover have "filter (\<lambda>x. length (takeWhile (\<lambda>y. y \<noteq> k) ys) = length (takeWhile (\<lambda>y. y \<noteq> x) ys)) xs
          = filter (\<lambda>x. k = x) xs"
    using eq sx by (intro filter_cong) auto
  ultimately show "filter (\<lambda>x. length (takeWhile (\<lambda>y. y \<noteq> k) ys) = length (takeWhile (\<lambda>y. y \<noteq> x) ys)) ys
          = filter (\<lambda>x. length (takeWhile (\<lambda>y. y \<noteq> k) ys) = length (takeWhile (\<lambda>y. y \<noteq> x) ys)) xs"
    using filter_member_distinct [OF assms(1) k] filter_member_distinct [OF dx] k sx by simp
qed

lemma every_iteration_order:
  assumes "distinct idents" and "mset order = mset idents"
  shows "iteration_order (c\<lparr> set_rank := (\<lambda>x. length (takeWhile (\<lambda>y. y \<noteq> x) order)) \<rparr>) idents = order"
proof -
  have "distinct order" using assms by (metis mset_eq_imp_distinct_iff)
  from every_order_has_a_ranking [OF this assms(2) [symmetric]] show ?thesis
    by (simp add: iteration_order_def)
qed

end
